theory Spec2Isabelle
  imports Main "HOL-Library.Word" "HOL-Library.Signed_Division"
begin

section \<open>Go strings as byte strings, decoded into runes\<close>

text \<open>
  A Go string is a sequence of bytes (\<open>string\<close>, a \<open>char list\<close>). The regexp package
  reads it rune by rune (\<open>utf8.DecodeRuneInString\<close>): an ASCII byte is a rune of width 1, a
  well-formed multi-byte UTF-8 sequence is one rune of width 2 to 4, and any other byte is
  the rune U+FFFD of width 1. A rune is kept here as the bytes it was decoded from, so that
  a match is again a substring of the input.
\<close>

type_synonym rune = string

definition in_range :: "nat \<Rightarrow> nat \<Rightarrow> char \<Rightarrow> bool" where
  "in_range lo hi c = (lo \<le> of_char c \<and> (of_char c :: nat) \<le> hi)"

fun rune_size :: "string \<Rightarrow> nat" where
  "rune_size [] = 0"
| "rune_size (b0 # bs) =
     (let x = (of_char b0 :: nat) in
      if x < 0x80 then 1
      else if x < 0xC2 \<or> 0xF4 < x then 1
      else
        let size = (if x < 0xE0 then 2 else if x < 0xF0 then 3 else (4::nat));
            lo = (if x = 0xE0 then 0xA0 else if x = 0xF0 then 0x90 else 0x80);
            hi = (if x = 0xED then 0x9F else if x = 0xF4 then 0x8F else 0xBF)
        in if length bs < size - 1 then 1
           else if \<not> in_range lo hi (bs ! 0) then 1
           else if size \<le> 2 then 2
           else if \<not> in_range 0x80 0xBF (bs ! 1) then 1
           else if size \<le> 3 then 3
           else if \<not> in_range 0x80 0xBF (bs ! 2) then 1
           else 4)"

function runes :: "string \<Rightarrow> rune list" where
  "runes s = (if s = [] then [] else take (rune_size s) s # runes (drop (rune_size s) s))"
  by pat_completeness auto
termination
proof (relation "measure length")
  show "wf (measure length)" by simp
next
  fix s :: string
  assume "s \<noteq> []"
  then obtain b0 bs where s: "s = b0 # bs" by (cases s) auto
  have "0 < rune_size (b0 # bs)" by (simp add: Let_def)
  with s show "(drop (rune_size s) s, s) \<in> measure length" by simp
qed

declare runes.simps [simp del]

section \<open>The regular expressions of the pre-validator\<close>

text \<open>
  The four patterns use single-rune items (a literal, a class \<open>[...]\<close>, a negated class
  \<open>[^...]\<close>), greedy \<open>*\<close> and \<open>+\<close> on such items, \<open>?\<close>, alternation, concatenation and
  capture groups. Go's regexp prefers the leftmost match and, at one start position, the
  match a backtracking search finds first (a greedy repetition takes as much as it can and
  gives back one rune at a time; the left branch of an alternation is tried first).
\<close>

datatype cls = Chr char | In string | NotIn string

datatype regex =
    One cls
  | Star cls
  | Plus cls
  | Opt regex
  | Alt regex regex
  | Seq regex regex
  | Grp nat regex
  | Eps

fun cls_match :: "cls \<Rightarrow> rune \<Rightarrow> bool" where
  "cls_match (Chr c) r = (r = [c])"
| "cls_match (In cs) r = (case r of [c] \<Rightarrow> c \<in> set cs | _ \<Rightarrow> False)"
| "cls_match (NotIn cs) r = (case r of [c] \<Rightarrow> c \<notin> set cs | _ \<Rightarrow> True)"

text \<open>
  \<open>outcomes re rs g\<close> lists every way \<open>re\<close> can match at the start of \<open>rs\<close>, in the order
  a backtracking search tries them: what is left of \<open>rs\<close> after the match, and the capture
  groups \<open>g\<close> updated by it.
\<close>

definition greedy :: "cls \<Rightarrow> rune list \<Rightarrow> (nat \<Rightarrow> rune list) \<Rightarrow> (rune list \<times> (nat \<Rightarrow> rune list)) list"
  where
  "greedy c rs g =
     map (\<lambda>i. (drop i rs, g)) (rev [0..<Suc (length (takeWhile (cls_match c) rs))])"

fun outcomes :: "regex \<Rightarrow> rune list \<Rightarrow> (nat \<Rightarrow> rune list) \<Rightarrow>
    (rune list \<times> (nat \<Rightarrow> rune list)) list" where
  "outcomes (One c) rs g =
     (case rs of [] \<Rightarrow> [] | r # rs' \<Rightarrow> if cls_match c r then [(rs', g)] else [])"
| "outcomes (Star c) rs g = greedy c rs g"
| "outcomes (Plus c) rs g =
     (case rs of [] \<Rightarrow> [] | r # rs' \<Rightarrow> if cls_match c r then greedy c rs' g else [])"
| "outcomes (Opt a) rs g = outcomes a rs g @ [(rs, g)]"
| "outcomes (Alt a b) rs g = outcomes a rs g @ outcomes b rs g"
| "outcomes (Seq a b) rs g =
     concat (map (\<lambda>(rs', g'). outcomes b rs' g') (outcomes a rs g))"
| "outcomes (Grp i a) rs g =
     map (\<lambda>(rs', g'). (rs', g'(i := take (length rs - length rs') rs))) (outcomes a rs g)"
| "outcomes Eps rs g = [(rs, g)]"

fun ngroups :: "regex \<Rightarrow> nat" where
  "ngroups (Opt a) = ngroups a"
| "ngroups (Alt a b) = ngroups a + ngroups b"
| "ngroups (Seq a b) = ngroups a + ngroups b"
| "ngroups (Grp i a) = Suc (ngroups a)"
| "ngroups _ = 0"

text \<open>
  The match at the start of \<open>rs\<close>, if there is one, is the first outcome: the runes of the
  whole match and of each group (a group that took no part is empty).
\<close>

definition match_here :: "regex \<Rightarrow> rune list \<Rightarrow> (rune list \<times> rune list list) option" where
  "match_here re rs =
     (case outcomes re rs (\<lambda>_. []) of
        [] \<Rightarrow> None
      | (rs', g) # _ \<Rightarrow>
          Some (take (length rs - length rs') rs, map g [1..<Suc (ngroups re)]))"

text \<open>
  All successive non-overlapping matches, leftmost first. Every pattern below consumes at
  least one rune, so the search resumes where the match ended.
\<close>

fun find_all :: "regex \<Rightarrow> rune list \<Rightarrow> (rune list \<times> rune list list) list" where
  "find_all re [] = []"
| "find_all re (r # rs) =
     (case match_here re (r # rs) of
        None \<Rightarrow> find_all re rs
      | Some (w, gs) \<Rightarrow> (w, gs) # find_all re (drop (length w - 1) rs))"

definition FindAllString :: "regex \<Rightarrow> string \<Rightarrow> string list" where
  "FindAllString re s = map (\<lambda>(w, gs). concat w) (find_all re (runes s))"

definition FindAllStringSubmatch :: "regex \<Rightarrow> string \<Rightarrow> string list list" where
  "FindAllStringSubmatch re s =
     map (\<lambda>(w, gs). concat w # map concat gs) (find_all re (runes s))"

definition seq :: "regex list \<Rightarrow> regex" where
  "seq xs = foldr Seq xs Eps"

definition lit :: "string \<Rightarrow> regex" where
  "lit s = seq (map (\<lambda>c. One (Chr c)) s)"

fun alts :: "regex \<Rightarrow> regex list \<Rightarrow> regex" where
  "alts a [] = a"
| "alts a (b # bs) = Alt a (alts b bs)"


definition upper :: string where
  "upper = ''ABCDEFGHIJKLMNOPQRSTUVWXYZ''"

definition digit :: string where
  "digit = ''0123456789''"

definition word :: string where
  "word = digit @ upper @ ''abcdefghijklmnopqrstuvwxyz_''"

definition quotes :: string where
  "quotes = [CHR 0x22, CHR 0x27]"

definition space :: string where
  "space = [CHR 0x09, CHR 0x0A, CHR 0x0C, CHR 0x0D, CHR 0x20]"

section \<open>prevalidator.go\<close>

record PreValidator =
  uppercaseTagRe :: regex
  uppercaseAttrRe :: regex
  unquotedAttrRe :: regex
  unclosedVoidRe :: regex

definition NewPreValidator :: PreValidator where
  "NewPreValidator = \<lparr>
     uppercaseTagRe =
       seq [One (Chr CHR ''<''), Opt (One (Chr CHR ''/'')), One (In upper),
            Star (In (upper @ digit))],
     uppercaseAttrRe =
       seq [Plus (In space), One (In upper), Star (In (upper @ digit @ ''_-'')),
            One (Chr CHR ''='')],
     unquotedAttrRe =
       seq [Plus (In space), Grp 1 (Plus (In word)), One (Chr CHR ''=''),
            Grp 2 (Seq (One (NotIn quotes)) (Plus (NotIn (space @ ''>''))))],
     unclosedVoidRe =
       seq [One (Chr CHR ''<''),
            Grp 1 (alts (lit ''br'')
              [lit ''img'', lit ''input'', lit ''meta'', lit ''link'', lit ''hr'', lit ''area'',
               lit ''base'', lit ''col'', lit ''embed'', lit ''param'', lit ''source'',
               lit ''track'', lit ''wbr'']),
            Grp 2 (Alt (Seq (One (In space)) (Star (NotIn ''/>''))) Eps),
            One (Chr CHR ''>'')]
   \<rparr>"

datatype IssueType =
  IssueUppercaseTag | IssueUppercaseAttr | IssueUnquotedAttr | IssueUnclosedVoid
  | IssueInvalidNesting

record ValidationIssue =
  issue_Type :: IssueType
  issue_Line :: int
  issue_Column :: int
  issue_Message :: string
  issue_Original :: string
  issue_Fixed :: string

definition TrimPrefix :: "string \<Rightarrow> string \<Rightarrow> string" where
  "TrimPrefix s p = (if take (length p) s = p then drop (length p) s else s)"

definition TrimSuffix :: "string \<Rightarrow> string \<Rightarrow> string" where
  "TrimSuffix s p = rev (TrimPrefix (rev s) (rev p))"

text \<open>
  \<open>strings.TrimSpace\<close> on ASCII text (it is only applied to a match of
  \<open>uppercaseAttrRe\<close>, which is ASCII): tab, newline, vertical tab, form feed, carriage
  return and space are cut from both ends.
\<close>

definition TrimSpace :: "string \<Rightarrow> string" where
  "TrimSpace s =
     (let ws = (\<lambda>c. c \<in> set [CHR 0x09, CHR 0x0A, CHR 0x0B, CHR 0x0C, CHR 0x0D, CHR 0x20])
      in rev (dropWhile ws (rev (dropWhile ws s))))"

text \<open>
  The four loops of \<open>Validate\<close>. \<open>seen\<close> is the Go \<open>map[string]bool\<close> (a missing key
  reads as false); \<open>lower\<close> stands for \<open>strings.ToLower\<close>.
\<close>

fun uppercaseTag_loop :: "(string \<Rightarrow> string) \<Rightarrow> string list \<Rightarrow> (string \<Rightarrow> bool) \<Rightarrow>
    ValidationIssue list \<Rightarrow> ValidationIssue list" where
  "uppercaseTag_loop lower [] seen issues = issues"
| "uppercaseTag_loop lower (match # matches) seen issues =
     (let tagName = TrimPrefix (TrimPrefix match ''</'') ''<'' in
      if \<not> seen tagName
      then uppercaseTag_loop lower matches (seen(tagName := True))
             (issues @ [\<lparr>issue_Type = IssueUppercaseTag, issue_Line = 0, issue_Column = 0,
                          issue_Message = ''Tag must be lowercase'',
                          issue_Original = tagName, issue_Fixed = lower tagName\<rparr>])
      else uppercaseTag_loop lower matches seen issues)"

fun uppercaseAttr_loop :: "(string \<Rightarrow> string) \<Rightarrow> string list \<Rightarrow> (string \<Rightarrow> bool) \<Rightarrow>
    ValidationIssue list \<Rightarrow> ValidationIssue list" where
  "uppercaseAttr_loop lower [] seen issues = issues"
| "uppercaseAttr_loop lower (match # matches) seen issues =
     (let attrName = TrimSuffix (TrimSpace match) ''='' in
      if \<not> seen attrName
      then uppercaseAttr_loop lower matches (seen(attrName := True))
             (issues @ [\<lparr>issue_Type = IssueUppercaseAttr, issue_Line = 0, issue_Column = 0,
                          issue_Message = ''Attribute must be lowercase'',
                          issue_Original = attrName, issue_Fixed = lower attrName\<rparr>])
      else uppercaseAttr_loop lower matches seen issues)"

fun unquotedAttr_loop :: "string list list \<Rightarrow> (string \<Rightarrow> bool) \<Rightarrow>
    ValidationIssue list \<Rightarrow> ValidationIssue list" where
  "unquotedAttr_loop [] seen issues = issues"
| "unquotedAttr_loop (match # matches) seen issues =
     (if length match \<ge> 3
      then (let key = match ! 0 in
            if \<not> seen key
            then unquotedAttr_loop matches (seen(key := True))
                   (issues @ [\<lparr>issue_Type = IssueUnquotedAttr, issue_Line = 0,
                                issue_Column = 0,
                                issue_Message = ''Attribute value must be quoted'',
                                issue_Original = match ! 0,
                                issue_Fixed = match ! 1 @ [CHR ''='', CHR 0x22] @ match ! 2
                                              @ [CHR 0x22]\<rparr>])
            else unquotedAttr_loop matches seen issues)
      else unquotedAttr_loop matches seen issues)"

text \<open>
  The last loop reads \<open>match[1]\<close> under the guard \<open>len(match) >= 1\<close>; a submatch of
  \<open>unclosedVoidRe\<close> always has three entries, so the read is in range.
\<close>

fun unclosedVoid_loop :: "string list list \<Rightarrow> (string \<Rightarrow> bool) \<Rightarrow>
    ValidationIssue list \<Rightarrow> ValidationIssue list" where
  "unclosedVoid_loop [] seen issues = issues"
| "unclosedVoid_loop (match # matches) seen issues =
     (if length match \<ge> 1
      then (let tagName = match ! 1 in
            if \<not> seen tagName
            then unclosedVoid_loop matches (seen(tagName := True))
                   (issues @ [\<lparr>issue_Type = IssueUnclosedVoid, issue_Line = 0,
                                issue_Column = 0,
                                issue_Message = ''Void element must be self-closing'',
                                issue_Original = ''<'' @ tagName @ ''>'',
                                issue_Fixed = ''<'' @ tagName @ '' />''\<rparr>])
            else unclosedVoid_loop matches seen issues)
      else unclosedVoid_loop matches seen issues)"

definition Validate :: "(string \<Rightarrow> string) \<Rightarrow> PreValidator \<Rightarrow> string \<Rightarrow> ValidationIssue list" where
  "Validate lower pv input =
     (let issues = [];
          matches = FindAllString (uppercaseTagRe pv) input;
          issues = (if length matches > 0
                    then uppercaseTag_loop lower matches (\<lambda>_. False) issues else issues);
          matches = FindAllString (uppercaseAttrRe pv) input;
          issues = (if length matches > 0
                    then uppercaseAttr_loop lower matches (\<lambda>_. False) issues else issues);
          matches = FindAllStringSubmatch (unquotedAttrRe pv) input;
          issues = (if length matches > 0
                    then unquotedAttr_loop matches (\<lambda>_. False) issues else issues);
          matches = FindAllStringSubmatch (unclosedVoidRe pv) input;
          issues = (if length matches > 0
                    then unclosedVoid_loop matches (\<lambda>_. False) issues else issues)
      in issues)"

section \<open>errors.go\<close>

datatype ErrorCode =
  ErrParseFailed | ErrValidationFailed | ErrConversionFailed | ErrTimeout
  | ErrContextCanceled | ErrInvalidInput

text \<open>
  Go error values: \<open>ErrorString\<close> is \<open>errors.New\<close>, \<open>Canceled\<close> and \<open>DeadlineExceeded\<close>
  are the two errors a context reports, and \<open>Error\<close> is the package's structured
  \<open>*Error\<close> with its code, message and cause (\<open>Field\<close> and \<open>Context\<close> are never set by a
  conversion).
\<close>

datatype GoError =
    ErrorString string
  | Canceled
  | DeadlineExceeded
  | Error ErrorCode string "GoError option"

definition NewError :: "ErrorCode \<Rightarrow> string \<Rightarrow> GoError option \<Rightarrow> GoError" where
  "NewError code message cause = Error code message cause"

section \<open>The parsed tree (golang.org/x/net/html)\<close>

datatype NodeType =
  ErrorNode | TextNode | DocumentNode | ElementNode | CommentNode | DoctypeNode | RawNode

record Attribute =
  Namespace :: string
  Key :: string
  Val :: string

text \<open>A node with its children in order (the \<open>FirstChild\<close>/\<open>NextSibling\<close> chain).\<close>

datatype Node = Node (Type: NodeType) (Data: string) (Attr: "Attribute list")
  (Children: "Node list")

text \<open>
  \<open>html.EscapeString\<close> of golang.org/x/net/html: the characters of \<open>"&'<>\"\\r"\<close> are
  replaced by entities, every other byte is kept.
\<close>

fun escape_char :: "char \<Rightarrow> string" where
  "escape_char c =
     (if c = CHR ''&'' then ''&amp;''
      else if c = CHR 0x27 then ''&#39;''
      else if c = CHR ''<'' then ''&lt;''
      else if c = CHR ''>'' then ''&gt;''
      else if c = CHR 0x22 then ''&#34;''
      else if c = CHR 0x0D then ''&#13;''
      else [c])"

definition EscapeString :: "string \<Rightarrow> string" where
  "EscapeString s = concat (map escape_char s)"

section \<open>converter.go: data\<close>

record Options =
  StrictMode :: bool
  AutoFix :: bool
  Verbose :: bool
  PreserveFormatting :: bool
  ValidateOnly :: bool

datatype ChangeType =
  ChangeUnclosedTag | ChangeUnquotedAttr | ChangeUppercaseTag | ChangeInvalidNesting
  | ChangeMissingNamespace

record Change =
  change_Type :: ChangeType
  change_Location :: string
  change_Message :: string
  change_Original :: string
  change_Fixed :: string

record Result =
  Success :: bool
  Output :: string
  OriginalSize :: "64 word"
  FinalSize :: "64 word"
  Changes :: "Change list"
  Errors :: "GoError list"
  Warnings :: "string list"

section \<open>metrics.go\<close>

record ConversionStats =
  TotalConversions :: "64 word"
  SuccessfulConversions :: "64 word"
  FailedConversions :: "64 word"
  AverageDuration :: "64 word"
  TotalBytesProcessed :: "64 word"
  TotalBytesOutput :: "64 word"
  ChangesApplied :: "ChangeType \<rightharpoonup> 64 word"
  ErrorsByType :: "ErrorCode \<rightharpoonup> 64 word"

text \<open>The counters are \<open>int64\<close>: addition wraps around, comparison and division are signed.\<close>

record DefaultMetrics =
  totalConversions :: "64 word"
  successfulConversions :: "64 word"
  failedConversions :: "64 word"
  totalDuration :: "64 word"
  totalBytesProcessed :: "64 word"
  totalBytesOutput :: "64 word"
  changesApplied :: "ChangeType \<rightharpoonup> 64 word"
  errorsByType :: "ErrorCode \<rightharpoonup> 64 word"

definition NewMetrics :: DefaultMetrics where
  "NewMetrics = \<lparr>totalConversions = 0, successfulConversions = 0, failedConversions = 0,
     totalDuration = 0, totalBytesProcessed = 0, totalBytesOutput = 0,
     changesApplied = Map.empty, errorsByType = Map.empty\<rparr>"

text \<open>\<open>m[k]++\<close> on a Go map: a missing key counts as 0.\<close>

definition incr :: "('k \<rightharpoonup> 64 word) \<Rightarrow> 'k \<Rightarrow> ('k \<rightharpoonup> 64 word)" where
  "incr m k = m(k \<mapsto> (case m k of None \<Rightarrow> 0 | Some v \<Rightarrow> v) + 1)"

definition DefaultMetrics_RecordConversion ::
    "DefaultMetrics \<Rightarrow> 64 word \<Rightarrow> 64 word \<Rightarrow> 64 word \<Rightarrow> DefaultMetrics" where
  "DefaultMetrics_RecordConversion m duration inputSize outputSize =
     m\<lparr>totalConversions := totalConversions m + 1,
       successfulConversions := successfulConversions m + 1,
       totalDuration := totalDuration m + duration,
       totalBytesProcessed := totalBytesProcessed m + inputSize,
       totalBytesOutput := totalBytesOutput m + outputSize\<rparr>"

definition DefaultMetrics_RecordError :: "DefaultMetrics \<Rightarrow> ErrorCode \<Rightarrow> DefaultMetrics" where
  "DefaultMetrics_RecordError m errorType =
     m\<lparr>totalConversions := totalConversions m + 1,
       failedConversions := failedConversions m + 1,
       errorsByType := incr (errorsByType m) errorType\<rparr>"

definition DefaultMetrics_RecordChange :: "DefaultMetrics \<Rightarrow> ChangeType \<Rightarrow> DefaultMetrics" where
  "DefaultMetrics_RecordChange m changeType =
     m\<lparr>changesApplied := incr (changesApplied m) changeType\<rparr>"

definition DefaultMetrics_GetStats :: "DefaultMetrics \<Rightarrow> ConversionStats" where
  "DefaultMetrics_GetStats m =
     (let total = totalConversions m;
          avgDuration = (if 0 <s total
                         then word_of_int (sint (totalDuration m) sdiv sint total) else 0)
      in \<lparr>TotalConversions = totalConversions m,
          SuccessfulConversions = successfulConversions m,
          FailedConversions = failedConversions m,
          AverageDuration = avgDuration,
          TotalBytesProcessed = totalBytesProcessed m,
          TotalBytesOutput = totalBytesOutput m,
          ChangesApplied = changesApplied m,
          ErrorsByType = errorsByType m\<rparr>)"

definition DefaultMetrics_Reset :: "DefaultMetrics \<Rightarrow> DefaultMetrics" where
  "DefaultMetrics_Reset m =
     m\<lparr>totalConversions := 0, successfulConversions := 0, failedConversions := 0,
       totalDuration := 0, totalBytesProcessed := 0, totalBytesOutput := 0,
       changesApplied := Map.empty, errorsByType := Map.empty\<rparr>"

text \<open>The \<open>Metrics\<close> interface with its two implementations.\<close>

datatype Metrics = NoOpMetrics | Default DefaultMetrics

fun RecordConversion :: "Metrics \<Rightarrow> 64 word \<Rightarrow> 64 word \<Rightarrow> 64 word \<Rightarrow> Metrics" where
  "RecordConversion NoOpMetrics duration inputSize outputSize = NoOpMetrics"
| "RecordConversion (Default m) duration inputSize outputSize =
     Default (DefaultMetrics_RecordConversion m duration inputSize outputSize)"

fun RecordError :: "Metrics \<Rightarrow> ErrorCode \<Rightarrow> Metrics" where
  "RecordError NoOpMetrics errorType = NoOpMetrics"
| "RecordError (Default m) errorType = Default (DefaultMetrics_RecordError m errorType)"

fun RecordChange :: "Metrics \<Rightarrow> ChangeType \<Rightarrow> Metrics" where
  "RecordChange NoOpMetrics changeType = NoOpMetrics"
| "RecordChange (Default m) changeType = Default (DefaultMetrics_RecordChange m changeType)"

fun GetStats :: "Metrics \<Rightarrow> ConversionStats" where
  "GetStats NoOpMetrics =
     \<lparr>TotalConversions = 0, SuccessfulConversions = 0, FailedConversions = 0,
      AverageDuration = 0, TotalBytesProcessed = 0, TotalBytesOutput = 0,
      ChangesApplied = Map.empty, ErrorsByType = Map.empty\<rparr>"
| "GetStats (Default m) = DefaultMetrics_GetStats m"

fun Reset :: "Metrics \<Rightarrow> Metrics" where
  "Reset NoOpMetrics = NoOpMetrics"
| "Reset (Default m) = Default (DefaultMetrics_Reset m)"

text \<open>A sequence of operations on a collector, with the snapshots it returns.\<close>

datatype MetricsOp =
    OpRecordConversion "64 word" "64 word" "64 word"
  | OpRecordError ErrorCode
  | OpRecordChange ChangeType
  | OpGetStats
  | OpReset

fun run_ops :: "Metrics \<Rightarrow> MetricsOp list \<Rightarrow> ConversionStats list" where
  "run_ops m [] = []"
| "run_ops m (OpRecordConversion d i out # ops) = run_ops (RecordConversion m d i out) ops"
| "run_ops m (OpRecordError e # ops) = run_ops (RecordError m e) ops"
| "run_ops m (OpRecordChange c # ops) = run_ops (RecordChange m c) ops"
| "run_ops m (OpGetStats # ops) = GetStats m # run_ops m ops"
| "run_ops m (OpReset # ops) = run_ops (Reset m) ops"

section \<open>converter.go: the tree passes\<close>

definition isVoidElement :: "string \<Rightarrow> bool" where
  "isVoidElement tag =
     (tag \<in> set [''area'', ''base'', ''br'', ''col'', ''embed'', ''hr'', ''img'', ''input'',
                  ''link'', ''meta'', ''param'', ''source'', ''track'', ''wbr''])"

text \<open>The loop over the attributes of \<open>validateNode\<close>.\<close>

fun validateAttrs :: "(string \<Rightarrow> string) \<Rightarrow> Attribute list \<Rightarrow> GoError option" where
  "validateAttrs lower [] = None"
| "validateAttrs lower (attr # attrs) =
     (if Key attr \<noteq> lower (Key attr)
      then Some (ErrorString (''attribute must be lowercase: '' @ Key attr))
      else validateAttrs lower attrs)"

text \<open>The checks \<open>validateNode\<close> makes on the node itself, before it visits the children.\<close>

definition validateElement :: "(string \<Rightarrow> string) \<Rightarrow> Node \<Rightarrow> GoError option" where
  "validateElement lower n =
     (if Type n = ElementNode
      then (if Data n \<noteq> lower (Data n)
            then Some (ErrorString (''tag must be lowercase: '' @ Data n))
            else if isVoidElement (Data n) \<and> Children n \<noteq> []
            then Some (ErrorString (''void element cannot have children: '' @ Data n))
            else validateAttrs lower (Attr n))
      else None)"

fun validateNode :: "(string \<Rightarrow> string) \<Rightarrow> Node \<Rightarrow> GoError option"
  and validateChildren :: "(string \<Rightarrow> string) \<Rightarrow> Node list \<Rightarrow> GoError option" where
  "validateNode lower (Node t d as cs) =
     (case validateElement lower (Node t d as cs) of
        Some err \<Rightarrow> Some err
      | None \<Rightarrow> validateChildren lower cs)"
| "validateChildren lower [] = None"
| "validateChildren lower (child # rest) =
     (case validateNode lower child of
        Some err \<Rightarrow> Some err
      | None \<Rightarrow> validateChildren lower rest)"

text \<open>
  \<open>fixNode\<close> rewrites the tree in place and appends to \<open>result.Changes\<close>: the model returns
  the rewritten node and the extended list of changes.
\<close>

fun fixNode :: "(string \<Rightarrow> string) \<Rightarrow> Node \<Rightarrow> Change list \<Rightarrow> Node \<times> Change list"
  and fixChildren :: "(string \<Rightarrow> string) \<Rightarrow> Node list \<Rightarrow> Change list \<Rightarrow> Node list \<times> Change list"
  where
  "fixNode lower (Node t d as cs) changes =
     (let (d', changes') =
        (if t = ElementNode \<and> d \<noteq> lower d
         then (lower d,
               changes @ [\<lparr>change_Type = ChangeUppercaseTag, change_Location = [],
                            change_Message = ''Converted tag to lowercase'',
                            change_Original = d, change_Fixed = lower d\<rparr>])
         else (d, changes));
          as' = (if t = ElementNode
                 then map (\<lambda>a. if Key a \<noteq> lower (Key a) then a\<lparr>Key := lower (Key a)\<rparr>
                                else a) as
                 else as);
          (cs', changes'') = fixChildren lower cs changes'
      in (Node t d' as' cs', changes''))"
| "fixChildren lower [] changes = ([], changes)"
| "fixChildren lower (child # rest) changes =
     (let (child', changes') = fixNode lower child changes;
          (rest', changes'') = fixChildren lower rest changes'
      in (child' # rest', changes''))"

text \<open>
  \<open>renderXHTML\<close> writes to a \<open>bytes.Buffer\<close>, which never fails: the buffer is passed in
  and returned, next to the error the function returns.
\<close>

definition renderAttr :: "Attribute \<Rightarrow> string" where
  "renderAttr attr = '' '' @ Key attr @ [CHR ''='', CHR 0x22] @ EscapeString (Val attr) @ [CHR 0x22]"

fun renderXHTML :: "Node \<Rightarrow> string \<Rightarrow> GoError option \<times> string"
  and renderChildren :: "Node list \<Rightarrow> string \<Rightarrow> GoError option \<times> string" where
  "renderXHTML (Node t d as cs) w =
     (case t of
        DocumentNode \<Rightarrow> renderChildren cs w
      | ElementNode \<Rightarrow>
          (let w = w @ ''<'' @ d;
               w = foldl (\<lambda>w attr. w @ renderAttr attr) w as
           in if isVoidElement d then (None, w @ '' />'')
              else (case renderChildren cs (w @ ''>'') of
                      (Some err, w) \<Rightarrow> (Some err, w)
                    | (None, w) \<Rightarrow> (None, w @ ''</'' @ d @ ''>'')))
      | TextNode \<Rightarrow> (None, w @ EscapeString d)
      | CommentNode \<Rightarrow> (None, w @ ''<!--'' @ d @ ''-->'')
      | _ \<Rightarrow> (None, w))"
| "renderChildren [] w = (None, w)"
| "renderChildren (child # rest) w =
     (case renderXHTML child w of
        (Some err, w) \<Rightarrow> (Some err, w)
      | (None, w) \<Rightarrow> renderChildren rest w)"

section \<open>converter.go: Convert\<close>

record DefaultConverter =
  metrics :: "Metrics option"
  preValidator :: PreValidator

definition New :: DefaultConverter where
  "New = \<lparr>metrics = Some NoOpMetrics, preValidator = NewPreValidator\<rparr>"

definition NewWithMetrics :: "Metrics option \<Rightarrow> DefaultConverter" where
  "NewWithMetrics m = \<lparr>metrics = m, preValidator = NewPreValidator\<rparr>"

text \<open>\<open>if c.metrics != nil { c.metrics.RecordError(code) }\<close>\<close>

definition notifyError :: "Metrics option \<Rightarrow> ErrorCode \<Rightarrow> Metrics option" where
  "notifyError ms code = (case ms of None \<Rightarrow> None | Some m \<Rightarrow> Some (RecordError m code))"

text \<open>The loop \<open>for _, change := range result.Changes { c.metrics.RecordChange(change.Type) }\<close>\<close>

definition notifyChanges :: "Metrics \<Rightarrow> Change list \<Rightarrow> Metrics" where
  "notifyChanges m changes = foldl (\<lambda>m change. RecordChange m (change_Type change)) m changes"

definition issueChange :: "ValidationIssue \<Rightarrow> Change" where
  "issueChange issue =
     \<lparr>change_Type =
        (case issue_Type issue of
           IssueUppercaseTag \<Rightarrow> ChangeUppercaseTag
         | IssueUppercaseAttr \<Rightarrow> ChangeUnquotedAttr
         | IssueUnquotedAttr \<Rightarrow> ChangeUnquotedAttr
         | IssueUnclosedVoid \<Rightarrow> ChangeUnclosedTag
         | _ \<Rightarrow> ChangeUnclosedTag),
      change_Location = [],
      change_Message = issue_Message issue,
      change_Original = issue_Original issue,
      change_Fixed = issue_Fixed issue\<rparr>"

definition newResult :: "string \<Rightarrow> Result" where
  "newResult input =
     \<lparr>Success = False, Output = [], OriginalSize = of_nat (length input), FinalSize = 0,
      Changes = [], Errors = [], Warnings = []\<rparr>"

text \<open>
  A call of a Go function either returns or panics. The only panic of a conversion is the
  read of \<open>n.Type\<close> through a nil \<open>*html.Node\<close>, the first thing \<open>validateNode\<close>,
  \<open>fixNode\<close> and \<open>renderXHTML\<close> do with their node.
\<close>

datatype 'a run = Returns 'a | Panics

text \<open>The \<open>*Result\<close> of a returned pair \<open>(*Result, error)\<close>; a call that panics hands none over.\<close>

fun returned_Result :: "(Result option \<times> GoError option) run \<Rightarrow> Result option" where
  "returned_Result (Returns (result, err)) = result"
| "returned_Result Panics = None"

text \<open>
  \<open>Convert\<close> returns the Go pair \<open>(*Result, error)\<close>, or panics, and leaves the collector
  updated. \<open>parse\<close> stands for \<open>html.Parse\<close> on the input bytes: it returns the pair
  \<open>(*Node, error)\<close>, where the tree is nil (\<open>None\<close>) when the parser fails. With a parser
  error and \<open>StrictMode\<close> off the code goes on with that tree: \<open>validateNode\<close> (or, with
  \<open>AutoFix\<close>, \<open>renderXHTML\<close>) is the next statement that runs, and it panics on a nil tree.
\<close>

definition Convert :: "(string \<Rightarrow> string) \<Rightarrow> (string \<Rightarrow> Node option \<times> GoError option) \<Rightarrow>
    DefaultConverter \<Rightarrow> string \<Rightarrow> Options \<Rightarrow>
    (Result option \<times> GoError option) run \<times> Metrics option"
  where
  "Convert lower parse c input opts =
     (let result = newResult input;
          issues = (if StrictMode opts \<or> AutoFix opts
                    then Validate lower (preValidator c) input else [])
      in
      if (StrictMode opts \<or> AutoFix opts) \<and> StrictMode opts \<and> length issues > 0
      then (let issue = issues ! 0
            in (Returns (None, Some (NewError ErrValidationFailed
                  (issue_Message issue @ '': '' @ issue_Original issue) None)), metrics c))
      else
      let result = (if (StrictMode opts \<or> AutoFix opts) \<and> AutoFix opts
                    then result\<lparr>Changes := Changes result @ map issueChange issues\<rparr>
                    else result);
          (doc, err) = parse input;
          ms = (if err \<noteq> None then notifyError (metrics c) ErrParseFailed else metrics c)
      in
      if err \<noteq> None \<and> StrictMode opts
      then (Returns (None, Some (NewError ErrParseFailed ''failed to parse HTML'' err)), ms)
      else
      let result = (case err of None \<Rightarrow> result
                    | Some e \<Rightarrow> result\<lparr>Errors := Errors result @ [e]\<rparr>)
      in
      (case doc of
         None \<Rightarrow> (Panics, ms)
       | Some doc \<Rightarrow>
      (let verr = (if \<not> AutoFix opts then validateNode lower doc else None);
           ms = (if verr \<noteq> None then notifyError ms ErrValidationFailed else ms)
       in
       if verr \<noteq> None \<and> StrictMode opts
       then (Returns (None, Some (NewError ErrValidationFailed ''validation failed'' verr)), ms)
       else
       (case renderXHTML doc [] of
          (Some rerr, buf) \<Rightarrow>
            (Returns (None, Some (NewError ErrConversionFailed ''failed to render XHTML''
               (Some rerr))),
             notifyError ms ErrConversionFailed)
        | (None, buf) \<Rightarrow>
            (let result = result\<lparr>Output := buf\<rparr>;
                 result = result\<lparr>FinalSize := of_nat (length (Output result))\<rparr>;
                 result = result\<lparr>Success := (length (Errors result) = 0)\<rparr>;
                 ms = (case ms of None \<Rightarrow> None
                       | Some m \<Rightarrow> Some (notifyChanges m (Changes result)))
             in (Returns (Some result, None), ms))))))"

section \<open>context.go: ConvertWithContext\<close>

text \<open>
  A context is polled by \<open>select { case <-ctx.Done(): ... default: }\<close>. \<open>Never\<close> is a
  context that is never done; \<open>After n e\<close> lets n polls pass and is done from then on, with
  \<open>ctx.Err() = e\<close> (\<open>Canceled\<close> after a call of cancel, \<open>DeadlineExceeded\<close> after a
  timeout).
\<close>

datatype Context = Never | After nat GoError

fun poll :: "Context \<Rightarrow> GoError option \<times> Context" where
  "poll Never = (None, Never)"
| "poll (After 0 e) = (Some e, After 0 e)"
| "poll (After (Suc n) e) = (None, After n e)"

text \<open>
  The two wrappers poll the context first and only then hand the node, which may be nil,
  to \<open>validateNode\<close> and \<open>fixNode\<close>.
\<close>

definition validateNodeWithContext :: "(string \<Rightarrow> string) \<Rightarrow> Context \<Rightarrow> Node option \<Rightarrow>
    (GoError option \<times> Context) run" where
  "validateNodeWithContext lower ctx n =
     (case poll ctx of
        (Some cerr, ctx) \<Rightarrow>
          Returns (Some (NewError ErrContextCanceled ''context canceled during validation''
             (Some cerr)), ctx)
      | (None, ctx) \<Rightarrow>
          (case n of
             None \<Rightarrow> Panics
           | Some n \<Rightarrow> Returns (validateNode lower n, ctx)))"

definition fixNodeWithContext :: "(string \<Rightarrow> string) \<Rightarrow> Context \<Rightarrow> Node option \<Rightarrow> Result \<Rightarrow>
    (GoError option \<times> Context \<times> Node option \<times> Result) run" where
  "fixNodeWithContext lower ctx n result =
     (case poll ctx of
        (Some cerr, ctx) \<Rightarrow>
          Returns (Some (NewError ErrContextCanceled ''context canceled during fix''
             (Some cerr)), ctx, n, result)
      | (None, ctx) \<Rightarrow>
          (case n of
             None \<Rightarrow> Panics
           | Some n \<Rightarrow>
               (let (n', changes) = fixNode lower n (Changes result)
                in Returns (None, ctx, Some n', result\<lparr>Changes := changes\<rparr>))))"

text \<open>
  \<open>elapsed\<close> is the value of \<open>time.Since(startTime)\<close> when the conversion is recorded.
  The validate-or-fix step either ends the call (\<open>Inl\<close>: a return or a panic) or goes on
  (\<open>Inr\<close>). With a parser error and \<open>StrictMode\<close> off the tree is nil: the checkpoint after
  parsing and the poll of the wrapper still run, and \<open>fixNode\<close> or \<open>validateNode\<close> panics
  if neither of them observed the signal.
\<close>

definition ConvertWithContext :: "(string \<Rightarrow> string) \<Rightarrow>
    (string \<Rightarrow> Node option \<times> GoError option) \<Rightarrow>
    DefaultConverter \<Rightarrow> Context \<Rightarrow> 64 word \<Rightarrow> string \<Rightarrow> Options \<Rightarrow>
    (Result option \<times> GoError option) run \<times> Metrics option" where
  "ConvertWithContext lower parse c ctx elapsed input opts =
     (let result = newResult input in
      (case poll ctx of
        (Some cerr, ctx) \<Rightarrow>
          (Returns (None, Some (NewError ErrContextCanceled ''context canceled'' (Some cerr))),
           notifyError (metrics c) ErrContextCanceled)
      | (None, ctx) \<Rightarrow>
      (let (doc, err) = parse input;
           ms = (if err \<noteq> None then notifyError (metrics c) ErrParseFailed else metrics c)
       in
       if err \<noteq> None \<and> StrictMode opts
       then (Returns (None, Some (NewError ErrParseFailed ''failed to parse HTML'' err)), ms)
       else
       (let result = (case err of None \<Rightarrow> result
                      | Some e \<Rightarrow> result\<lparr>Errors := Errors result @ [e]\<rparr>)
        in
        (case poll ctx of
          (Some cerr, ctx) \<Rightarrow>
            (Returns (None, Some (NewError ErrContextCanceled ''context canceled after parsing''
                (Some cerr))),
             notifyError ms ErrContextCanceled)
        | (None, ctx) \<Rightarrow>
        (let step =
          (if AutoFix opts
           then (case fixNodeWithContext lower ctx doc result of
                   Panics \<Rightarrow> Inl (Panics, ms)
                 | Returns (Some ferr, ctx, doc, result) \<Rightarrow>
                     Inl (Returns (None, Some ferr), notifyError ms ErrConversionFailed)
                 | Returns (None, ctx, doc, result) \<Rightarrow> Inr (ctx, doc, result, ms))
           else (case validateNodeWithContext lower ctx doc of
                   Panics \<Rightarrow> Inl (Panics, ms)
                 | Returns (Some verr, ctx) \<Rightarrow>
                     (let ms = notifyError ms ErrValidationFailed
                      in if StrictMode opts
                         then Inl (Returns (None, Some (NewError ErrValidationFailed
                                     ''validation failed'' (Some verr))), ms)
                         else Inr (ctx, doc, result, ms))
                 | Returns (None, ctx) \<Rightarrow> Inr (ctx, doc, result, ms)))
         in
         (case step of
           Inl ended \<Rightarrow> ended
         | Inr (ctx, doc, result, ms) \<Rightarrow>
         (case poll ctx of
           (Some cerr, ctx) \<Rightarrow>
             (Returns (None, Some (NewError ErrContextCanceled
                 ''context canceled after validation'' (Some cerr))),
              notifyError ms ErrContextCanceled)
         | (None, ctx) \<Rightarrow>
         (case doc of
            None \<Rightarrow> (Panics, ms)
          | Some doc \<Rightarrow>
         (case renderXHTML doc [] of
            (Some rerr, buf) \<Rightarrow>
              (Returns (None, Some (NewError ErrConversionFailed ''failed to render XHTML''
                  (Some rerr))),
               notifyError ms ErrConversionFailed)
          | (None, buf) \<Rightarrow>
              (let result = result\<lparr>Output := buf\<rparr>;
                   result = result\<lparr>FinalSize := of_nat (length (Output result))\<rparr>;
                   result = result\<lparr>Success := (length (Errors result) = 0)\<rparr>;
                   ms = (case ms of None \<Rightarrow> None
                         | Some m \<Rightarrow> Some (notifyChanges
                             (RecordConversion m elapsed (OriginalSize result)
                                (FinalSize result))
                             (Changes result)))
               in (Returns (Some result, None), ms))))))))))))"

section \<open>Auxiliary notions used in the statements\<close>

text \<open>The relation between the three conversion counters of a collector.\<close>

definition counts_consistent :: "Metrics \<Rightarrow> bool" where
  "counts_consistent m =
     (case m of NoOpMetrics \<Rightarrow> True
      | Default d \<Rightarrow> totalConversions d = successfulConversions d + failedConversions d)"

text \<open>What the serializer appends to the buffer for a node.\<close>

definition rendered :: "Node \<Rightarrow> string" where
  "rendered n = snd (renderXHTML n [])"

text \<open>The node kinds \<open>renderXHTML\<close> has a case for.\<close>

definition renders :: "NodeType \<Rightarrow> bool" where
  "renders t = (t \<in> {DocumentNode, ElementNode, TextNode, CommentNode})"

text \<open>The tree without its nodes of any other kind (a doctype, for one).\<close>

fun prune :: "Node \<Rightarrow> Node" where
  "prune (Node t d as cs) = Node t d as (map prune (filter (\<lambda>c. renders (Type c)) cs))"

fun first :: "'a list \<Rightarrow> 'a option" where
  "first [] = None"
| "first (x # xs) = Some x"

text \<open>
  The validator's three rules, as the specification words them: every violation of an
  element in rule order (tag case, void element with children, attribute case in attribute
  order), and the violations of a tree in depth-first document order, parent first.
\<close>

definition elementViolations :: "(string \<Rightarrow> string) \<Rightarrow> Node \<Rightarrow> GoError list" where
  "elementViolations lower n =
     (if Type n = ElementNode
      then (if Data n \<noteq> lower (Data n)
            then [ErrorString (''tag must be lowercase: '' @ Data n)] else [])
         @ (if isVoidElement (Data n) \<and> Children n \<noteq> []
            then [ErrorString (''void element cannot have children: '' @ Data n)] else [])
         @ map (\<lambda>a. ErrorString (''attribute must be lowercase: '' @ Key a))
             (filter (\<lambda>a. Key a \<noteq> lower (Key a)) (Attr n))
      else [])"

fun violations :: "(string \<Rightarrow> string) \<Rightarrow> Node \<Rightarrow> GoError list" where
  "violations lower (Node t d as cs) =
     elementViolations lower (Node t d as cs) @ concat (map (violations lower) cs)"

fun nodes :: "Node \<Rightarrow> Node list" where
  "nodes (Node t d as cs) = Node t d as cs # concat (map nodes cs)"

definition conforms :: "(string \<Rightarrow> string) \<Rightarrow> Node \<Rightarrow> bool" where
  "conforms lower n =
     (Type n = ElementNode \<longrightarrow>
        Data n = lower (Data n)
      \<and> \<not> (isVoidElement (Data n) \<and> Children n \<noteq> [])
      \<and> (\<forall>a \<in> set (Attr n). Key a = lower (Key a)))"

text \<open>An error is structured when it is the package's \<open>*Error\<close>.\<close>

definition structured :: "GoError \<Rightarrow> bool" where
  "structured e = (case e of Error code message cause \<Rightarrow> True | _ \<Rightarrow> False)"

subsection \<open>The scanner\<close>

text \<open>
  The Defect each loop of \<open>Validate\<close> builds from a match, and the first Defect of a scan:
  the one built from the first match of the first pattern, in the order uppercase tag,
  uppercase attribute, unquoted attribute, unclosed void element, that matches at all.
\<close>

definition uppercaseTagDefect :: "(string \<Rightarrow> string) \<Rightarrow> string \<Rightarrow> ValidationIssue" where
  "uppercaseTagDefect lower match =
     \<lparr>issue_Type = IssueUppercaseTag, issue_Line = 0, issue_Column = 0,
      issue_Message = ''Tag must be lowercase'',
      issue_Original = TrimPrefix (TrimPrefix match ''</'') ''<'',
      issue_Fixed = lower (TrimPrefix (TrimPrefix match ''</'') ''<'')\<rparr>"

definition uppercaseAttrDefect :: "(string \<Rightarrow> string) \<Rightarrow> string \<Rightarrow> ValidationIssue" where
  "uppercaseAttrDefect lower match =
     \<lparr>issue_Type = IssueUppercaseAttr, issue_Line = 0, issue_Column = 0,
      issue_Message = ''Attribute must be lowercase'',
      issue_Original = TrimSuffix (TrimSpace match) ''='',
      issue_Fixed = lower (TrimSuffix (TrimSpace match) ''='')\<rparr>"

definition unquotedAttrDefect :: "string list \<Rightarrow> ValidationIssue" where
  "unquotedAttrDefect match =
     \<lparr>issue_Type = IssueUnquotedAttr, issue_Line = 0, issue_Column = 0,
      issue_Message = ''Attribute value must be quoted'',
      issue_Original = match ! 0,
      issue_Fixed = match ! 1 @ [CHR ''='', CHR 0x22] @ match ! 2 @ [CHR 0x22]\<rparr>"

definition unclosedVoidDefect :: "string list \<Rightarrow> ValidationIssue" where
  "unclosedVoidDefect match =
     \<lparr>issue_Type = IssueUnclosedVoid, issue_Line = 0, issue_Column = 0,
      issue_Message = ''Void element must be self-closing'',
      issue_Original = ''<'' @ match ! 1 @ ''>'',
      issue_Fixed = ''<'' @ match ! 1 @ '' />''\<rparr>"

definition firstDefect :: "(string \<Rightarrow> string) \<Rightarrow> PreValidator \<Rightarrow> string \<Rightarrow> ValidationIssue option"
  where
  "firstDefect lower pv input =
     (case FindAllString (uppercaseTagRe pv) input of
        m # _ \<Rightarrow> Some (uppercaseTagDefect lower m)
      | [] \<Rightarrow>
     (case FindAllString (uppercaseAttrRe pv) input of
        m # _ \<Rightarrow> Some (uppercaseAttrDefect lower m)
      | [] \<Rightarrow>
     (case FindAllStringSubmatch (unquotedAttrRe pv) input of
        m # _ \<Rightarrow> Some (unquotedAttrDefect m)
      | [] \<Rightarrow>
     (case FindAllStringSubmatch (unclosedVoidRe pv) input of
        m # _ \<Rightarrow> Some (unclosedVoidDefect m)
      | [] \<Rightarrow> None))))"

text \<open>
  Where the unquoted-attribute pattern can match, said without the pattern: the text at
  hand starts with white space, then a name of word characters, then \<open>=\<close>, then a
  character that is not a quote, then one more character that is neither white space nor
  \<open>>\<close>. \<open>occurs P rs\<close> says that \<open>P\<close> holds of \<open>rs\<close> from some position on.
\<close>

definition longValueAt :: "rune list \<Rightarrow> bool" where
  "longValueAt rs =
     (let ws = takeWhile (cls_match (In space)) rs;
          rs1 = dropWhile (cls_match (In space)) rs;
          name = takeWhile (cls_match (In word)) rs1;
          rs2 = dropWhile (cls_match (In word)) rs1
      in ws \<noteq> [] \<and> name \<noteq> [] \<and>
         (case rs2 of
            e # q # n # rest \<Rightarrow>
              e = ''='' \<and> \<not> cls_match (In quotes) q \<and> \<not> cls_match (In (space @ ''>'')) n
          | _ \<Rightarrow> False))"

fun occurs :: "('a list \<Rightarrow> bool) \<Rightarrow> 'a list \<Rightarrow> bool" where
  "occurs P [] = False"
| "occurs P (r # rs) = (P (r # rs) \<or> occurs P rs)"

text \<open>
  An unquoted attribute value, in the words of the specification: white space, an attribute
  name, \<open>=\<close>, and a value that starts with neither a quote, nor white space, nor \<open>>\<close>.
\<close>

definition spec_unquotedAttrRe :: regex where
  "spec_unquotedAttrRe =
     seq [Plus (In space), Plus (In word), One (Chr CHR ''=''),
          One (NotIn (quotes @ space @ ''>''))]"

definition containsUnquotedAttr :: "string \<Rightarrow> bool" where
  "containsUnquotedAttr input = (FindAllString spec_unquotedAttrRe input \<noteq> [])"

subsection \<open>Concrete data for the examples\<close>

text \<open>\<open>strings.ToLower\<close> on ASCII text.\<close>

definition ToLowerASCII :: "string \<Rightarrow> string" where
  "ToLowerASCII =
     map (\<lambda>c. case map_of (zip upper ''abcdefghijklmnopqrstuvwxyz'') c of
                 None \<Rightarrow> c | Some l \<Rightarrow> l)"

definition defaultOptions :: Options where
  "defaultOptions = \<lparr>StrictMode = False, AutoFix = False, Verbose = False,
     PreserveFormatting = False, ValidateOnly = False\<rparr>"

definition elem :: "string \<Rightarrow> Node list \<Rightarrow> Node" where
  "elem tag cs = Node ElementNode tag [] cs"

definition attr :: "string \<Rightarrow> string \<Rightarrow> Attribute" where
  "attr k v = \<lparr>Namespace = [], Key = k, Val = v\<rparr>"

text \<open>
  The tree the HTML parser builds for a fragment: the document, \<open>html\<close>, an empty \<open>head\<close>
  and a \<open>body\<close> with the fragment's nodes.
\<close>

definition page :: "Node list \<Rightarrow> Node" where
  "page body = Node DocumentNode [] [] [elem ''html'' [elem ''head'' [], elem ''body'' body]]"

text \<open>Markup of \<open>n\<close> elements, each opened inside the one before.\<close>

definition nested :: "nat \<Rightarrow> string" where
  "nested n = concat (replicate n ''<div>'')"

section \<open>The serializer\<close>

lemma foldl_renderAttr:
  "foldl (\<lambda>w attr. w @ renderAttr attr) v as = v @ concat (map renderAttr as)"
  by (induction as rule: rev_induct) simp_all

lemma renderChildren_append:
  assumes "\<And>c w. c \<in> set cs \<Longrightarrow> renderXHTML c w = (None, w @ rendered c)"
  shows "renderChildren cs w = (None, w @ concat (map rendered cs))"
  using assms
proof (induction cs arbitrary: w)
  case Nil
  then show ?case by simp
next
  case (Cons c cs)
  have "renderXHTML c w = (None, w @ rendered c)"
    using Cons.prems by simp
  moreover have "renderChildren cs (w @ rendered c)
      = (None, (w @ rendered c) @ concat (map rendered cs))"
    using Cons.IH Cons.prems by simp
  ultimately show ?case by simp
qed

lemma renderXHTML_append: "renderXHTML n w = (None, w @ rendered n)"
proof (induction n arbitrary: w)
  case (Node t d as cs)
  have ch: "\<And>v. renderChildren cs v = (None, v @ concat (map rendered cs))"
    using Node.IH by (rule renderChildren_append)
  show ?case
    unfolding rendered_def [of "Node t d as cs"]
    by (cases t) (simp_all add: ch foldl_renderAttr Let_def)
qed

lemma renderChildren_eq: "renderChildren cs w = (None, w @ concat (map rendered cs))"
  by (rule renderChildren_append) (rule renderXHTML_append)

lemma rendered_Document: "rendered (Node DocumentNode d as cs) = concat (map rendered cs)"
  by (simp add: rendered_def [of "Node DocumentNode d as cs"] renderChildren_eq)

lemma rendered_Element:
  "rendered (Node ElementNode d as cs) =
     ''<'' @ d @ concat (map renderAttr as) @
     (if isVoidElement d then '' />''
      else ''>'' @ concat (map rendered cs) @ ''</'' @ d @ ''>'')"
  by (simp add: rendered_def [of "Node ElementNode d as cs"] renderChildren_eq
        foldl_renderAttr Let_def)

lemma rendered_Text: "rendered (Node TextNode d as cs) = EscapeString d"
  by (simp add: rendered_def)

lemma rendered_Comment: "rendered (Node CommentNode d as cs) = ''<!--'' @ d @ ''-->''"
  by (simp add: rendered_def)

lemma rendered_not_renders: "\<not> renders t \<Longrightarrow> rendered (Node t d as cs) = []"
  by (cases t) (simp_all add: renders_def rendered_def)

lemma EscapeString_no_markup:
  "CHR ''<'' \<notin> set (EscapeString s) \<and> CHR ''>'' \<notin> set (EscapeString s)"
  by (induction s) (simp_all add: EscapeString_def)

text \<open>
  C4. The serializer appends to its buffer, and never fails: for a Document node the
  rendering of its children in order; for an Element node \<open><name\<close>, then each attribute in
  order as \<open> name="v"\<close> with the value entity-escaped, then \<open> />\<close> when the name is a void
  element (its children are not rendered), and otherwise \<open>>\<close>, the rendered children and
  \<open></name>\<close>; for a Text node the entity-escaped text; for a Comment node \<open><!--\<close>, the data
  as it is, and \<open>-->\<close>. Escaping works character by character, turns \<open>&\<close>, \<open><\<close> and \<open>>\<close>
  into \<open>&amp;\<close>, \<open>&lt;\<close> and \<open>&gt;\<close>, and leaves no \<open><\<close> or \<open>>\<close> in its result.
\<close>

theorem serializer_rules:
  "renderXHTML n w = (None, w @ rendered n)
   \<and> rendered (Node DocumentNode d as cs) = concat (map rendered cs)
   \<and> rendered (Node ElementNode d as cs) =
       ''<'' @ d @ concat (map renderAttr as) @
       (if isVoidElement d then '' />''
        else ''>'' @ concat (map rendered cs) @ ''</'' @ d @ ''>'')
   \<and> renderAttr a = '' '' @ Key a @ [CHR ''='', CHR 0x22] @ EscapeString (Val a) @ [CHR 0x22]
   \<and> rendered (Node TextNode d as cs) = EscapeString d
   \<and> rendered (Node CommentNode d as cs) = ''<!--'' @ d @ ''-->''
   \<and> EscapeString (x @ y) = EscapeString x @ EscapeString y
   \<and> EscapeString ''&'' = ''&amp;''
   \<and> EscapeString ''<'' = ''&lt;''
   \<and> EscapeString ''>'' = ''&gt;''
   \<and> CHR ''<'' \<notin> set (EscapeString s) \<and> CHR ''>'' \<notin> set (EscapeString s)
   \<and> isVoidElement tag =
       (tag \<in> {''area'', ''base'', ''br'', ''col'', ''embed'', ''hr'', ''img'', ''input'',
                ''link'', ''meta'', ''param'', ''source'', ''track'', ''wbr''})"
proof -
  have "isVoidElement tag =
       (tag \<in> {''area'', ''base'', ''br'', ''col'', ''embed'', ''hr'', ''img'', ''input'',
                ''link'', ''meta'', ''param'', ''source'', ''track'', ''wbr''})"
    by (simp add: isVoidElement_def)
  moreover
  have "EscapeString (x @ y) = EscapeString x @ EscapeString y"
    and "EscapeString ''&'' = ''&amp;''"
    and "EscapeString ''<'' = ''&lt;''"
    and "EscapeString ''>'' = ''&gt;''"
    by (simp_all add: EscapeString_def)
  ultimately show ?thesis
    using renderXHTML_append [of n w] rendered_Document [of d as cs]
      rendered_Element [of d as cs] rendered_Text [of d as cs] rendered_Comment [of d as cs]
      EscapeString_no_markup [of s]
    by (simp only: renderAttr_def simp_thms)
qed

theorem serializer_rules_witness:
  "rendered (page [Node ElementNode ''img'' [attr ''alt'' ''a<b''] [Node TextNode ''x'' [] []],
                   Node CommentNode ''a<b'' [] [], Node TextNode ''A & B'' [] []])
   = ''<html><head></head><body><img alt='' @ [CHR 0x22] @ ''a&lt;b'' @ [CHR 0x22]
     @ '' /><!--a<b-->A &amp; B</body></html>''"
  using serializer_rules [of "Node TextNode ''x'' [] []" "[]"]
  by (simp add: page_def elem_def attr_def rendered_Document rendered_Element rendered_Text
        rendered_Comment renderAttr_def isVoidElement_def EscapeString_def)

text \<open>
  C9. A node of any kind other than Document, Element, Text and Comment (a doctype node
  is one) adds nothing to the buffer, so the rendering of a tree is the rendering of the
  tree without such nodes, and the output of a conversion that returns a Result is the
  rendering of the parsed tree without its doctype: the declaration is not in it.
\<close>

lemma concat_rendered_filter:
  "concat (map rendered (filter (\<lambda>c. renders (Type c)) cs)) = concat (map rendered cs)"
proof (induction cs)
  case Nil
  then show ?case by simp
next
  case (Cons c cs)
  then show ?case by (cases c) (simp add: rendered_not_renders)
qed

lemma rendered_prune: "rendered (prune n) = rendered n"
proof (induction n)
  case (Node t d as cs)
  have "map rendered (map prune (filter (\<lambda>c. renders (Type c)) cs))
        = map rendered (filter (\<lambda>c. renders (Type c)) cs)"
    using Node.IH by simp
  then have ch: "concat (map rendered (map prune (filter (\<lambda>c. renders (Type c)) cs)))
        = concat (map rendered cs)"
    by (simp only: concat_rendered_filter)
  show ?case
  proof (cases "t = DocumentNode \<or> t = ElementNode")
    case True
    then show ?thesis
      using ch by (auto simp: rendered_Document rendered_Element simp del: map_map)
  next
    case False
    then show ?thesis by (cases t) (simp_all add: rendered_def)
  qed
qed

lemma Convert_Output:
  "returned_Result (fst (Convert lower parse c input opts)) = Some r \<Longrightarrow>
   \<exists>doc. fst (parse input) = Some doc \<and> Output r = rendered doc"
  by (auto simp: Convert_def Let_def renderXHTML_append
        split: prod.splits option.splits if_splits)

theorem doctype_not_rendered:
  "(\<not> renders (Type n) \<longrightarrow> renderXHTML n w = (None, w))
   \<and> rendered (prune n) = rendered n
   \<and> (returned_Result (fst (Convert lower parse c input opts)) = Some r \<longrightarrow>
        (\<exists>doc. fst (parse input) = Some doc \<and> Output r = rendered (prune doc)))"
proof -
  have "\<not> renders (Type n) \<Longrightarrow> renderXHTML n w = (None, w)"
    using renderXHTML_append [of n w] by (cases n) (simp add: rendered_not_renders)
  then show ?thesis
    using Convert_Output [of lower parse c input opts r] by (simp add: rendered_prune)
qed

theorem doctype_not_rendered_witness:
  "\<not> renders (Type (Node DoctypeNode ''html'' [] []))
   \<and> renderXHTML (Node DoctypeNode ''html'' [] []) ''ab'' = (None, ''ab'')
   \<and> map_option Output (returned_Result (fst (Convert ToLowerASCII
        (\<lambda>_. (Some (Node DocumentNode [] []
                 [Node DoctypeNode ''html'' [] [],
                  elem ''html'' [elem ''head'' [],
                    elem ''body'' [elem ''p'' [Node TextNode ''x'' [] []]]]]), None))
        New ''<!DOCTYPE html><p>x</p>'' defaultOptions)))
     = Some ''<html><head></head><body><p>x</p></body></html>''"
  using doctype_not_rendered [of "Node DoctypeNode ''html'' [] []" "''ab''" ToLowerASCII
      "\<lambda>_. (Some (Node DocumentNode [] []
                 [Node DoctypeNode ''html'' [] [],
                  elem ''html'' [elem ''head'' [],
                    elem ''body'' [elem ''p'' [Node TextNode ''x'' [] []]]]]), None)"
      New "''<!DOCTYPE html><p>x</p>''" defaultOptions]
  by (simp add: renders_def Convert_def Let_def New_def defaultOptions_def elem_def
        renderXHTML_append rendered_Document rendered_Element rendered_Text
        isVoidElement_def EscapeString_def validateElement_def notifyChanges_def
        newResult_def)

section \<open>The tree validator\<close>

lemma first_append:
  "first (xs @ ys) = (case first xs of Some x \<Rightarrow> Some x | None \<Rightarrow> first ys)"
  by (cases xs) simp_all

lemma validateAttrs_first:
  "validateAttrs lower as =
     first (map (\<lambda>a. ErrorString (''attribute must be lowercase: '' @ Key a))
             (filter (\<lambda>a. Key a \<noteq> lower (Key a)) as))"
  by (induction as) simp_all

lemma validateElement_first: "validateElement lower n = first (elementViolations lower n)"
  by (simp add: validateElement_def elementViolations_def validateAttrs_first)

lemma validateChildren_first:
  assumes "\<And>c. c \<in> set cs \<Longrightarrow> validateNode lower c = first (violations lower c)"
  shows "validateChildren lower cs = first (concat (map (violations lower) cs))"
  using assms
proof (induction cs)
  case Nil
  then show ?case by simp
next
  case (Cons c cs)
  have "validateNode lower c = first (violations lower c)"
    using Cons.prems by simp
  moreover have "validateChildren lower cs = first (concat (map (violations lower) cs))"
    using Cons.IH Cons.prems by simp
  ultimately show ?case by (simp add: first_append split: option.split)
qed

lemma validateNode_first: "validateNode lower n = first (violations lower n)"
proof (induction n)
  case (Node t d as cs)
  have "validateChildren lower cs = first (concat (map (violations lower) cs))"
    using Node.IH by (rule validateChildren_first)
  then show ?case
    by (simp add: validateElement_first first_append split: option.split)
qed

lemma elementViolations_Nil: "elementViolations lower n = [] \<longleftrightarrow> conforms lower n"
  by (auto simp: elementViolations_def conforms_def filter_empty_conv)

lemma violations_Nil:
  "violations lower n = [] \<longleftrightarrow> (\<forall>e \<in> set (nodes n). conforms lower e)"
proof (induction n)
  case (Node t d as cs)
  then show ?case by (auto simp: elementViolations_Nil)
qed

text \<open>
  C5. The tree validator returns the first violation of the tree, in a depth-first,
  document-order traversal that visits a node before its children and checks, on an
  Element node, (1) that the tag name is its own lowercase form, (2) that a void element
  has no children, (3) that every attribute name is its own lowercase form, in this
  order; it returns no error exactly when every Element node of the tree passes all three
  checks.
\<close>

theorem validateNode_first_violation:
  "validateNode lower n = first (violations lower n)
   \<and> (validateNode lower n = None \<longleftrightarrow> (\<forall>e \<in> set (nodes n). conforms lower e))"
  using violations_Nil [of lower n]
  by (cases "violations lower n") (simp_all add: validateNode_first)

theorem validateNode_first_violation_witness:
  "validateNode ToLowerASCII
     (page [Node ElementNode ''p'' [attr ''ID'' ''a''] [],
            Node ElementNode ''br'' [attr ''CLASS'' ''b''] [Node TextNode ''x'' [] []]])
     = Some (ErrorString ''attribute must be lowercase: ID'')
   \<and> validateNode ToLowerASCII
     (page [Node ElementNode ''br'' [attr ''CLASS'' ''b''] [Node TextNode ''x'' [] []]])
     = Some (ErrorString ''void element cannot have children: br'')
   \<and> list_all (conforms ToLowerASCII) (nodes (page [elem ''br'' []]))
   \<and> validateNode ToLowerASCII (page [elem ''br'' []]) = None"
  using validateNode_first_violation [of ToLowerASCII "page [elem ''br'' []]"]
  by (simp add: page_def elem_def attr_def validateElement_def isVoidElement_def
        ToLowerASCII_def upper_def conforms_def)

section \<open>The pre-validator\<close>

lemma greedy_setD:
  "(rs', g') \<in> set (greedy c rs g) \<Longrightarrow>
   g' = g \<and> (\<exists>pre. rs = pre @ rs' \<and> list_all (cls_match c) pre)"
proof -
  assume "(rs', g') \<in> set (greedy c rs g)"
  then obtain i where i: "i \<le> length (takeWhile (cls_match c) rs)" and rs': "rs' = drop i rs"
    and g': "g' = g"
    by (auto simp: greedy_def less_Suc_eq_le simp del: upt_Suc)
  have "take i rs = take i (takeWhile (cls_match c) rs)"
    using i by (metis append_eq_conv_conj takeWhile_dropWhile_id take_append min.absorb2 take_all_iff
        append_Nil2 diff_is_0_eq take_0)
  then have "list_all (cls_match c) (take i rs)"
    by (metis in_set_takeD list_all_iff set_takeWhileD)
  moreover have "rs = take i rs @ rs'" using rs' by simp
  ultimately show ?thesis using g' by blast
qed

lemma outcomes_OneD:
  "(rs', g') \<in> set (outcomes (One c) rs g) \<Longrightarrow> g' = g \<and> (\<exists>r. rs = r # rs' \<and> cls_match c r)"
  by (cases rs) (auto split: if_splits)

lemma outcomes_StarD:
  "(rs', g') \<in> set (outcomes (Star c) rs g) \<Longrightarrow>
   g' = g \<and> (\<exists>pre. rs = pre @ rs' \<and> list_all (cls_match c) pre)"
  by (simp add: greedy_setD)

lemma outcomes_PlusD:
  "(rs', g') \<in> set (outcomes (Plus c) rs g) \<Longrightarrow>
   g' = g \<and> (\<exists>r pre. rs = r # pre @ rs' \<and> cls_match c r \<and> list_all (cls_match c) pre)"
  by (cases rs) (auto split: if_splits dest: greedy_setD)

lemma outcomes_SeqD:
  "(rs', g') \<in> set (outcomes (Seq a b) rs g) \<Longrightarrow>
   \<exists>rs1 g1. (rs1, g1) \<in> set (outcomes a rs g) \<and> (rs', g') \<in> set (outcomes b rs1 g1)"
  by auto

lemma outcomes_GrpD:
  "(rs', g') \<in> set (outcomes (Grp i a) rs g) \<Longrightarrow>
   \<exists>g1. (rs', g1) \<in> set (outcomes a rs g) \<and> g' = g1(i := take (length rs - length rs') rs)"
  by auto

lemma match_hereD:
  "match_here re rs = Some (w, gs) \<Longrightarrow>
   \<exists>rs' g. (rs', g) \<in> set (outcomes re rs (\<lambda>_. [])) \<and> w = take (length rs - length rs') rs
     \<and> gs = map g [1..<Suc (ngroups re)]"
  by (auto simp: match_here_def split: list.splits simp del: upt_Suc)

lemma find_all_setD:
  "(w, gs) \<in> set (find_all re rs) \<Longrightarrow>
   \<exists>pre suf. rs = pre @ suf \<and> match_here re suf = Some (w, gs)"
proof (induction re rs rule: find_all.induct)
  case (1 re)
  then show ?case by simp
next
  case (2 re r rs)
  show ?case
  proof (cases "match_here re (r # rs)")
    case None
    then obtain pre suf where "rs = pre @ suf" "match_here re suf = Some (w, gs)"
      using 2 by auto
    then have "r # rs = (r # pre) @ suf" by simp
    then show ?thesis using \<open>match_here re suf = Some (w, gs)\<close> by blast
  next
    case (Some m)
    obtain w' gs' where m: "m = (w', gs')" by (cases m)
    show ?thesis
    proof (cases "(w, gs) = (w', gs')")
      case True
      then have "r # rs = [] @ (r # rs)" "match_here re (r # rs) = Some (w, gs)"
        using Some m by simp_all
      then show ?thesis by blast
    next
      case False
      then have "(w, gs) \<in> set (find_all re (drop (length w' - 1) rs))"
        using "2.prems" Some m by auto
      then obtain pre suf where ps: "drop (length w' - 1) rs = pre @ suf"
          "match_here re suf = Some (w, gs)"
        using "2.IH"(2) Some m by blast
      have "r # rs = (r # take (length w' - 1) rs @ pre) @ suf"
        using ps(1) by (metis append.assoc append_Cons append_take_drop_id)
      then show ?thesis using ps(2) by blast
    qed
  qed
qed

lemma cls_match_NotIn: "cls_match (NotIn cs) r = (\<not> cls_match (In cs) r)"
  by (cases r rule: list.exhaust) (auto split: list.splits)

lemma unquotedAttrRe_unfold:
  "unquotedAttrRe NewPreValidator =
      Seq (Plus (In space)) (Seq (Grp 1 (Plus (In word))) (Seq (One (Chr CHR ''=''))
        (Seq (Grp 2 (Seq (One (NotIn quotes)) (Plus (NotIn (space @ ''>''))))) Eps)))"
  by (simp add: NewPreValidator_def seq_def)

lemma unquotedAttr_shape:
  assumes "(rs', g') \<in> set (outcomes (unquotedAttrRe NewPreValidator) rs g)"
  shows "\<exists>ws name q n mid. rs = ws @ name @ ''='' # q # n # mid @ rs'
           \<and> ws \<noteq> [] \<and> list_all (cls_match (In space)) ws
           \<and> name \<noteq> [] \<and> list_all (cls_match (In word)) name
           \<and> \<not> cls_match (In quotes) q \<and> \<not> cls_match (In (space @ ''>'')) n
           \<and> g' 2 = q # n # mid"
proof -
  let ?val = "Grp 2 (Seq (One (NotIn quotes)) (Plus (NotIn (space @ ''>''))))"
  from assms obtain rs1 g1 where
      a1: "(rs1, g1) \<in> set (outcomes (Plus (In space)) rs g)" and
      b1: "(rs', g') \<in> set (outcomes (Seq (Grp 1 (Plus (In word))) (Seq (One (Chr CHR ''=''))
              (Seq ?val Eps))) rs1 g1)"
    unfolding unquotedAttrRe_unfold by (blast dest: outcomes_SeqD)
  from b1 obtain rs2 g2 where
      a2: "(rs2, g2) \<in> set (outcomes (Grp 1 (Plus (In word))) rs1 g1)" and
      b2: "(rs', g') \<in> set (outcomes (Seq (One (Chr CHR ''='')) (Seq ?val Eps)) rs2 g2)"
    by (blast dest: outcomes_SeqD)
  from b2 obtain rs3 g3 where
      a3: "(rs3, g3) \<in> set (outcomes (One (Chr CHR ''='')) rs2 g2)" and
      b3: "(rs', g') \<in> set (outcomes (Seq ?val Eps) rs3 g3)"
    by (blast dest: outcomes_SeqD)
  from b3 have a4: "(rs', g') \<in> set (outcomes ?val rs3 g3)"
    by auto
  then obtain g4 where
      g': "g' = g4(2 := take (length rs3 - length rs') rs3)" and
      a5: "(rs', g4) \<in> set (outcomes (Seq (One (NotIn quotes)) (Plus (NotIn (space @ ''>'')))) rs3 g3)"
    by (blast dest: outcomes_GrpD)
  from a5 obtain rs5 g5 where
      a6: "(rs5, g5) \<in> set (outcomes (One (NotIn quotes)) rs3 g3)" and
      a7: "(rs', g4) \<in> set (outcomes (Plus (NotIn (space @ ''>''))) rs5 g5)"
    by (blast dest: outcomes_SeqD)
  from outcomes_OneD [OF a6] obtain q where q1: "rs3 = q # rs5"
      and q0: "cls_match (NotIn quotes) q"
    by blast
  note q2 = q0 [unfolded cls_match_NotIn]
  from outcomes_PlusD [OF a7] obtain n mid where n1: "rs5 = n # mid @ rs'"
      and n0: "cls_match (NotIn (space @ ''>'')) n"
    by blast
  note n2 = n0 [unfolded cls_match_NotIn]
  from outcomes_PlusD [OF a1] obtain s p1 where p1: "rs = s # p1 @ rs1"
      and s1: "cls_match (In space) s" "list_all (cls_match (In space)) p1"
    by blast
  from a2 obtain g2' where "(rs2, g2') \<in> set (outcomes (Plus (In word)) rs1 g1)"
    by (blast dest: outcomes_GrpD)
  from outcomes_PlusD [OF this] obtain w p2 where p2: "rs1 = w # p2 @ rs2"
      and w1: "cls_match (In word) w" "list_all (cls_match (In word)) p2"
    by blast
  from a3 have e: "rs2 = ''='' # rs3"
    using outcomes_OneD [OF a3] by auto
  have "rs = (s # p1) @ (w # p2) @ ''='' # q # n # mid @ rs'"
    using p1 p2 e q1 n1 by simp
  moreover have "g' 2 = q # n # mid"
    using g' q1 n1 by simp
  moreover have "s # p1 \<noteq> []" "w # p2 \<noteq> []" by simp_all
  moreover have "list_all (cls_match (In space)) (s # p1)" "list_all (cls_match (In word)) (w # p2)"
    using s1 w1 by simp_all
  ultimately show ?thesis using q2 n2 by blast
qed

lemma find_all_Nil_iff:
  "find_all re rs = [] \<longleftrightarrow> \<not> occurs (\<lambda>s. match_here re s \<noteq> None) rs"
  by (induction rs) (auto split: option.splits)

lemma match_here_None_iff: "match_here re rs = None \<longleftrightarrow> outcomes re rs (\<lambda>_. []) = []"
  by (auto simp: match_here_def split: list.splits)

lemma word_not_space: "cls_match (In word) r \<Longrightarrow> \<not> cls_match (In space) r"
  by (cases r rule: list.exhaust) (auto simp: word_def space_def digit_def upper_def split: list.splits)

lemma eq_not_word: "\<not> cls_match (In word) ''=''"
  by (simp add: word_def digit_def upper_def)

lemma greedy_max: "(dropWhile (cls_match c) rs, g) \<in> set (greedy c rs g)"
proof -
  have "dropWhile (cls_match c) rs = drop (length (takeWhile (cls_match c) rs)) rs"
    by (simp add: dropWhile_eq_drop)
  then show ?thesis
    unfolding greedy_def by (auto simp del: upt_Suc simp: image_iff)
qed

lemma outcomes_Plus_max:
  "takeWhile (cls_match c) rs \<noteq> [] \<Longrightarrow>
   (dropWhile (cls_match c) rs, g) \<in> set (outcomes (Plus c) rs g)"
  using greedy_max by (cases rs) (auto split: if_splits)

lemma outcomes_SeqI:
  "(rs1, g1) \<in> set (outcomes a rs g) \<Longrightarrow> (rs2, g2) \<in> set (outcomes b rs1 g1) \<Longrightarrow>
   (rs2, g2) \<in> set (outcomes (Seq a b) rs g)"
  by force

lemma outcomes_GrpI:
  "(rs1, g1) \<in> set (outcomes a rs g) \<Longrightarrow>
   (rs1, g1(i := take (length rs - length rs1) rs)) \<in> set (outcomes (Grp i a) rs g)"
  by force

lemma ngroups_unquotedAttrRe: "ngroups (unquotedAttrRe NewPreValidator) = 2"
  by (simp add: NewPreValidator_def seq_def)

lemma unquotedAttr_match:
  assumes "match_here (unquotedAttrRe NewPreValidator) suf = Some (w, gs)"
  shows "\<exists>pre q n mid post. suf = pre @ ''='' # q # n # mid @ post
           \<and> \<not> cls_match (In quotes) q \<and> \<not> cls_match (In (space @ ''>'')) n
           \<and> gs ! 1 = q # n # mid \<and> length gs = 2"
proof -
  obtain rs' g where o: "(rs', g) \<in> set (outcomes (unquotedAttrRe NewPreValidator) suf (\<lambda>_. []))"
      and gs: "gs = map g [1..<Suc (ngroups (unquotedAttrRe NewPreValidator))]"
    using match_hereD [OF assms] by blast
  have g12: "gs = [g 1, g 2]"
    using gs by (simp add: ngroups_unquotedAttrRe upt_rec numeral_2_eq_2)
  from unquotedAttr_shape [OF o] obtain ws name q n mid where
      s0: "suf = ws @ name @ ''='' # q # n # mid @ rs'" and
      s': "\<not> cls_match (In quotes) q" "\<not> cls_match (In (space @ ''>'')) n"
          "g 2 = q # n # mid"
    by blast
  from s0 have "suf = (ws @ name) @ ''='' # q # n # mid @ rs'" by simp
  note s = this s'
  have "gs ! 1 = q # n # mid" "length gs = 2"
    using g12 s(4) by simp_all
  then show ?thesis using s(1,2,3) by blast
qed

lemma unquotedAttr_value_length:
  "(w, gs) \<in> set (find_all (unquotedAttrRe NewPreValidator) rs) \<Longrightarrow> 2 \<le> length (gs ! 1)"
  using find_all_setD unquotedAttr_match by fastforce

lemma longValueAt_shape:
  assumes "ws \<noteq> []" "list_all (cls_match (In space)) ws"
    "name \<noteq> []" "list_all (cls_match (In word)) name"
  shows "longValueAt (ws @ name @ ''='' # q # rest) =
     (case rest of [] \<Rightarrow> False
      | n # rest' \<Rightarrow> \<not> cls_match (In quotes) q \<and> \<not> cls_match (In (space @ ''>'')) n)"
proof -
  obtain w name' where name: "name = w # name'" using assms(3) by (cases name) auto
  have w: "\<not> cls_match (In space) w" using assms(4) name word_not_space by simp
  have all_sp: "\<forall>x \<in> set ws. cls_match (In space) x" using assms(2) by (simp add: list_all_iff)
  have all_wd: "\<forall>x \<in> set name. cls_match (In word) x" using assms(4) by (simp add: list_all_iff)
  have t1: "takeWhile (cls_match (In space)) (ws @ name @ ''='' # q # rest) = ws"
    using all_sp w name by (simp add: takeWhile_append2)
  have d1: "dropWhile (cls_match (In space)) (ws @ name @ ''='' # q # rest)
      = name @ ''='' # q # rest"
    using all_sp w name by (simp add: dropWhile_append2)
  have t2: "takeWhile (cls_match (In word)) (name @ ''='' # q # rest) = name"
    using all_wd eq_not_word by (simp add: takeWhile_append2)
  have d2: "dropWhile (cls_match (In word)) (name @ ''='' # q # rest) = ''='' # q # rest"
    using all_wd eq_not_word by (simp add: dropWhile_append2)
  show ?thesis
    unfolding longValueAt_def Let_def t1 d1 t2 d2
    using assms(1,3) by (cases rest) simp_all
qed

lemma longValueAt_outcomes:
  "longValueAt rs \<longleftrightarrow> outcomes (unquotedAttrRe NewPreValidator) rs g \<noteq> []"
proof
  assume l: "longValueAt rs"
  let ?sp = "cls_match (In space)" and ?wd = "cls_match (In word)"
  let ?rs1 = "dropWhile ?sp rs"
  let ?rs2 = "dropWhile ?wd ?rs1"
  from l have ws: "takeWhile ?sp rs \<noteq> []" and nm: "takeWhile ?wd ?rs1 \<noteq> []"
    by (simp_all add: longValueAt_def Let_def)
  from l obtain q n rest where rs2: "?rs2 = ''='' # q # n # rest"
      and q: "\<not> cls_match (In quotes) q" and n: "\<not> cls_match (In (space @ ''>'')) n"
    by (auto simp: longValueAt_def Let_def split: list.splits)
  let ?g1 = "g(1 := take (length ?rs1 - length ?rs2) ?rs1)"
  have o1: "(?rs1, g) \<in> set (outcomes (Plus (In space)) rs g)"
    using ws by (rule outcomes_Plus_max)
  have "(?rs2, g) \<in> set (outcomes (Plus (In word)) ?rs1 g)"
    using nm by (rule outcomes_Plus_max)
  then have o2: "(?rs2, ?g1) \<in> set (outcomes (Grp 1 (Plus (In word))) ?rs1 g)"
    by (rule outcomes_GrpI)
  have o3: "(q # n # rest, ?g1) \<in> set (outcomes (One (Chr CHR ''='')) ?rs2 ?g1)"
    unfolding rs2 by simp
  have o4: "(n # rest, ?g1) \<in> set (outcomes (One (NotIn quotes)) (q # n # rest) ?g1)"
    using q by (simp add: cls_match_NotIn del: cls_match.simps)
  have "takeWhile (cls_match (NotIn (space @ ''>''))) (n # rest) \<noteq> []"
    using n by (simp add: cls_match_NotIn del: cls_match.simps)
  then have o5: "(dropWhile (cls_match (NotIn (space @ ''>''))) (n # rest), ?g1)
      \<in> set (outcomes (Plus (NotIn (space @ ''>''))) (n # rest) ?g1)"
    by (rule outcomes_Plus_max)
  let ?end = "dropWhile (cls_match (NotIn (space @ ''>''))) (n # rest)"
  have o6: "(?end, ?g1) \<in> set (outcomes (Seq (One (NotIn quotes)) (Plus (NotIn (space @ ''>''))))
      (q # n # rest) ?g1)"
    using o4 o5 by (rule outcomes_SeqI)
  let ?g2 = "?g1(2 := take (length (q # n # rest) - length ?end) (q # n # rest))"
  have o7: "(?end, ?g2) \<in> set (outcomes
      (Grp 2 (Seq (One (NotIn quotes)) (Plus (NotIn (space @ ''>''))))) (q # n # rest) ?g1)"
    using o6 by (rule outcomes_GrpI)
  have o8: "(?end, ?g2) \<in> set (outcomes Eps ?end ?g2)" by simp
  have "(?end, ?g2) \<in> set (outcomes (unquotedAttrRe NewPreValidator) rs g)"
    unfolding unquotedAttrRe_unfold
    by (rule outcomes_SeqI [OF o1], rule outcomes_SeqI [OF o2], rule outcomes_SeqI [OF o3],
        rule outcomes_SeqI [OF o7], rule o8)
  then show "outcomes (unquotedAttrRe NewPreValidator) rs g \<noteq> []"
    by (metis empty_iff empty_set)
next
  assume "outcomes (unquotedAttrRe NewPreValidator) rs g \<noteq> []"
  then obtain rs' g' where "(rs', g') \<in> set (outcomes (unquotedAttrRe NewPreValidator) rs g)"
    by (cases "outcomes (unquotedAttrRe NewPreValidator) rs g") auto
  from unquotedAttr_shape [OF this] obtain ws name q n mid where
      rs: "rs = ws @ name @ ''='' # q # n # mid @ rs'" and
      s: "ws \<noteq> []" "list_all (cls_match (In space)) ws"
         "name \<noteq> []" "list_all (cls_match (In word)) name" and
      qn: "\<not> cls_match (In quotes) q" "\<not> cls_match (In (space @ ''>'')) n"
    by blast
  show "longValueAt rs"
    unfolding rs using longValueAt_shape [OF s, of q "n # mid @ rs'"] qn by simp
qed

lemma unquotedAttr_silent_iff:
  "FindAllStringSubmatch (unquotedAttrRe NewPreValidator) input = []
     \<longleftrightarrow> \<not> occurs longValueAt (runes input)"
proof -
  have "(\<lambda>s. match_here (unquotedAttrRe NewPreValidator) s \<noteq> None) = longValueAt"
    by (rule ext) (simp add: match_here_None_iff longValueAt_outcomes [of _ "\<lambda>_. []"])
  then show ?thesis
    by (simp add: FindAllStringSubmatch_def find_all_Nil_iff)
qed

lemma uppercaseTag_loop_append:
  "uppercaseTag_loop lower ms seen (a @ b) = a @ uppercaseTag_loop lower ms seen b"
  by (induction ms arbitrary: seen b) (simp_all add: Let_def)

lemma uppercaseAttr_loop_append:
  "uppercaseAttr_loop lower ms seen (a @ b) = a @ uppercaseAttr_loop lower ms seen b"
  by (induction ms arbitrary: seen b) (simp_all add: Let_def)

lemma unquotedAttr_loop_append:
  "unquotedAttr_loop ms seen (a @ b) = a @ unquotedAttr_loop ms seen b"
  by (induction ms arbitrary: seen b) (simp_all add: Let_def)

lemma unclosedVoid_loop_append:
  "unclosedVoid_loop ms seen (a @ b) = a @ unclosedVoid_loop ms seen b"
  by (induction ms arbitrary: seen b) (simp_all add: Let_def)

lemma uppercaseTag_guard:
  "(if length ms > 0 then uppercaseTag_loop lower ms seen i else i)
     = i @ uppercaseTag_loop lower ms seen []"
proof (cases ms)
  case Nil
  then show ?thesis by simp
next
  case (Cons m ms')
  then have "length ms > 0" by simp
  then show ?thesis
    using uppercaseTag_loop_append [of lower ms seen i "[]"] by (simp only: if_True append_Nil2)
qed

lemma uppercaseAttr_guard:
  "(if length ms > 0 then uppercaseAttr_loop lower ms seen i else i)
     = i @ uppercaseAttr_loop lower ms seen []"
proof (cases ms)
  case Nil
  then show ?thesis by simp
next
  case (Cons m ms')
  then have "length ms > 0" by simp
  then show ?thesis
    using uppercaseAttr_loop_append [of lower ms seen i "[]"] by (simp only: if_True append_Nil2)
qed

lemma unquotedAttr_guard:
  "(if length ms > 0 then unquotedAttr_loop ms seen i else i)
     = i @ unquotedAttr_loop ms seen []"
proof (cases ms)
  case Nil
  then show ?thesis by simp
next
  case (Cons m ms')
  then have "length ms > 0" by simp
  then show ?thesis
    using unquotedAttr_loop_append [of ms seen i "[]"] by (simp only: if_True append_Nil2)
qed

lemma unclosedVoid_guard:
  "(if length ms > 0 then unclosedVoid_loop ms seen i else i)
     = i @ unclosedVoid_loop ms seen []"
proof (cases ms)
  case Nil
  then show ?thesis by simp
next
  case (Cons m ms')
  then have "length ms > 0" by simp
  then show ?thesis
    using unclosedVoid_loop_append [of ms seen i "[]"] by (simp only: if_True append_Nil2)
qed

lemma Validate_append:
  "Validate lower pv input =
     uppercaseTag_loop lower (FindAllString (uppercaseTagRe pv) input) (\<lambda>_. False) []
     @ uppercaseAttr_loop lower (FindAllString (uppercaseAttrRe pv) input) (\<lambda>_. False) []
     @ unquotedAttr_loop (FindAllStringSubmatch (unquotedAttrRe pv) input) (\<lambda>_. False) []
     @ unclosedVoid_loop (FindAllStringSubmatch (unclosedVoidRe pv) input) (\<lambda>_. False) []"
  unfolding Validate_def Let_def uppercaseTag_guard uppercaseAttr_guard unquotedAttr_guard
    unclosedVoid_guard
  by (simp only: append_Nil append_assoc)

lemma uppercaseTag_loop_single:
  "uppercaseTag_loop lower ms seen [x] = x # uppercaseTag_loop lower ms seen []"
  using uppercaseTag_loop_append [of lower ms seen "[x]" "[]"]
  by (simp only: append_Nil2 append_Cons append_Nil)

lemma uppercaseAttr_loop_single:
  "uppercaseAttr_loop lower ms seen [x] = x # uppercaseAttr_loop lower ms seen []"
  using uppercaseAttr_loop_append [of lower ms seen "[x]" "[]"]
  by (simp only: append_Nil2 append_Cons append_Nil)

lemma unquotedAttr_loop_single:
  "unquotedAttr_loop ms seen [x] = x # unquotedAttr_loop ms seen []"
  using unquotedAttr_loop_append [of ms seen "[x]" "[]"]
  by (simp only: append_Nil2 append_Cons append_Nil)

lemma unclosedVoid_loop_single:
  "unclosedVoid_loop ms seen [x] = x # unclosedVoid_loop ms seen []"
  using unclosedVoid_loop_append [of ms seen "[x]" "[]"]
  by (simp only: append_Nil2 append_Cons append_Nil)

lemma first_uppercaseTag_loop:
  "first (uppercaseTag_loop lower ms (\<lambda>_. False) []) =
     (case ms of [] \<Rightarrow> None | m # _ \<Rightarrow> Some (uppercaseTagDefect lower m))"
  by (cases ms) (simp_all add: Let_def uppercaseTagDefect_def uppercaseTag_loop_single)

lemma first_uppercaseAttr_loop:
  "first (uppercaseAttr_loop lower ms (\<lambda>_. False) []) =
     (case ms of [] \<Rightarrow> None | m # _ \<Rightarrow> Some (uppercaseAttrDefect lower m))"
  by (cases ms) (simp_all add: Let_def uppercaseAttrDefect_def uppercaseAttr_loop_single)

lemma first_unquotedAttr_loop:
  "(\<And>m. m \<in> set ms \<Longrightarrow> 3 \<le> length m) \<Longrightarrow>
   first (unquotedAttr_loop ms (\<lambda>_. False) []) =
     (case ms of [] \<Rightarrow> None | m # _ \<Rightarrow> Some (unquotedAttrDefect m))"
  by (cases ms) (simp_all add: Let_def unquotedAttrDefect_def unquotedAttr_loop_single)

lemma first_unclosedVoid_loop:
  "(\<And>m. m \<in> set ms \<Longrightarrow> 1 \<le> length m) \<Longrightarrow>
   first (unclosedVoid_loop ms (\<lambda>_. False) []) =
     (case ms of [] \<Rightarrow> None | m # _ \<Rightarrow> Some (unclosedVoidDefect m))"
  by (cases ms) (simp_all add: Let_def unclosedVoidDefect_def unclosedVoid_loop_single)

lemma match_here_length:
  "match_here re rs = Some (w, gs) \<Longrightarrow> length gs = ngroups re"
  by (auto simp: match_here_def split: list.splits simp del: upt_Suc)

lemma FindAllStringSubmatch_length:
  assumes "m \<in> set (FindAllStringSubmatch re input)"
  shows "length m = Suc (ngroups re)"
proof -
  from assms obtain w gs where wg: "(w, gs) \<in> set (find_all re (runes input))"
      and m: "m = concat w # map concat gs"
    unfolding FindAllStringSubmatch_def by auto
  from find_all_setD [OF wg] obtain pre suf where "match_here re suf = Some (w, gs)"
    by blast
  then have "length gs = ngroups re"
    by (rule match_here_length)
  then show ?thesis using m by simp
qed

lemma first_Validate:
  "first (Validate lower NewPreValidator input) = firstDefect lower NewPreValidator input"
proof -
  let ?m1 = "FindAllString (uppercaseTagRe NewPreValidator) input"
  let ?m2 = "FindAllString (uppercaseAttrRe NewPreValidator) input"
  let ?m3 = "FindAllStringSubmatch (unquotedAttrRe NewPreValidator) input"
  let ?m4 = "FindAllStringSubmatch (unclosedVoidRe NewPreValidator) input"
  have 3: "\<And>m. m \<in> set ?m3 \<Longrightarrow> 3 \<le> length m"
    by (simp add: FindAllStringSubmatch_length ngroups_unquotedAttrRe)
  have 4: "\<And>m. m \<in> set ?m4 \<Longrightarrow> 1 \<le> length m"
    by (simp add: FindAllStringSubmatch_length)
  have f1: "first (uppercaseTag_loop lower ?m1 (\<lambda>_. False) []) =
      (case ?m1 of [] \<Rightarrow> None | m # _ \<Rightarrow> Some (uppercaseTagDefect lower m))"
    by (rule first_uppercaseTag_loop)
  have f2: "first (uppercaseAttr_loop lower ?m2 (\<lambda>_. False) []) =
      (case ?m2 of [] \<Rightarrow> None | m # _ \<Rightarrow> Some (uppercaseAttrDefect lower m))"
    by (rule first_uppercaseAttr_loop)
  have f3: "first (unquotedAttr_loop ?m3 (\<lambda>_. False) []) =
      (case ?m3 of [] \<Rightarrow> None | m # _ \<Rightarrow> Some (unquotedAttrDefect m))"
    using 3 by (rule first_unquotedAttr_loop)
  have f4: "first (unclosedVoid_loop ?m4 (\<lambda>_. False) []) =
      (case ?m4 of [] \<Rightarrow> None | m # _ \<Rightarrow> Some (unclosedVoidDefect m))"
    using 4 by (rule first_unclosedVoid_loop)
  have "first (Validate lower NewPreValidator input) =
      (case first (uppercaseTag_loop lower ?m1 (\<lambda>_. False) []) of Some x \<Rightarrow> Some x
       | None \<Rightarrow>
      (case first (uppercaseAttr_loop lower ?m2 (\<lambda>_. False) []) of Some x \<Rightarrow> Some x
       | None \<Rightarrow>
      (case first (unquotedAttr_loop ?m3 (\<lambda>_. False) []) of Some x \<Rightarrow> Some x
       | None \<Rightarrow> first (unclosedVoid_loop ?m4 (\<lambda>_. False) []))))"
    by (simp only: Validate_append first_append)
  also have "\<dots> = firstDefect lower NewPreValidator input"
    unfolding f1 f2 f3 f4 firstDefect_def
    by (cases ?m1; cases ?m2; cases ?m3; cases ?m4) simp_all
  finally show ?thesis .
qed

section \<open>Evaluating the model on concrete inputs\<close>

lemmas scan_defs = Validate_def NewPreValidator_def seq_def lit_def FindAllString_def
  FindAllStringSubmatch_def match_here_def upper_def digit_def word_def space_def quotes_def
  Let_def in_range_def greedy_def TrimPrefix_def TrimSuffix_def TrimSpace_def ToLowerASCII_def
  runes.simps

lemmas convert_defs = Convert_def ConvertWithContext_def Let_def New_def NewWithMetrics_def
  defaultOptions_def page_def elem_def attr_def newResult_def NewError_def notifyError_def
  notifyChanges_def issueChange_def validateNodeWithContext_def fixNodeWithContext_def
  validateElement_def isVoidElement_def renderXHTML_append rendered_Document rendered_Element
  rendered_Text rendered_Comment renderAttr_def EscapeString_def

lemma lower_tags:
  "ToLowerASCII ''html'' = ''html''" "ToLowerASCII ''head'' = ''head''"
  "ToLowerASCII ''body'' = ''body''" "ToLowerASCII ''br'' = ''br''"
  "ToLowerASCII ''p'' = ''p''" "ToLowerASCII ''div'' = ''div''"
  "ToLowerASCII ''width'' = ''width''" "ToLowerASCII ''id'' = ''id''"
  by (simp_all add: ToLowerASCII_def upper_def)

lemma Validate_BR:
  "Validate ToLowerASCII NewPreValidator ''<BR>'' =
     [\<lparr>issue_Type = IssueUppercaseTag, issue_Line = 0, issue_Column = 0,
       issue_Message = ''Tag must be lowercase'', issue_Original = ''BR'',
       issue_Fixed = ''br''\<rparr>]"
  by (simp add: scan_defs)

lemma Validate_p_x: "Validate ToLowerASCII NewPreValidator ''<p>x</p>'' = []"
  by (simp add: scan_defs)

lemma Validate_p_width: "Validate ToLowerASCII NewPreValidator ''<p width=5>x</p>'' = []"
  by (simp add: scan_defs)

lemma firstDefect_example:
  "firstDefect ToLowerASCII NewPreValidator ''<br CLASS=x><B>'' =
     Some \<lparr>issue_Type = IssueUppercaseTag, issue_Line = 0, issue_Column = 0,
            issue_Message = ''Tag must be lowercase'', issue_Original = ''B'',
            issue_Fixed = ''b''\<rparr>"
  by (simp add: firstDefect_def uppercaseTagDefect_def scan_defs)

lemma scan_silent:
  "set (FindAllStringSubmatch (unquotedAttrRe NewPreValidator) ''<img src=pic.jpg>'')
     = {['' src=pic.jpg'', ''src'', ''pic.jpg'']}"
  "\<not> longValueAt (runes '' width=5>1+1=10</p>'')"
  "runes ''>1+1=10</p>'' = [''>'', ''1'', ''+'', ''1'', ''='', ''1'', ''0'', ''<'', ''/'', ''p'', ''>'']"
  "\<not> occurs longValueAt (runes ''<p width=5>1+1=10</p>'')"
  "FindAllString (uppercaseTagRe NewPreValidator) ''<p width=5>1+1=10</p>'' = []"
  "FindAllString (uppercaseAttrRe NewPreValidator) ''<p width=5>1+1=10</p>'' = []"
  "FindAllStringSubmatch (unclosedVoidRe NewPreValidator) ''<p width=5>1+1=10</p>'' = []"
  by (simp_all add: scan_defs longValueAt_def)

lemma Validate_p_text:
  "Validate ToLowerASCII NewPreValidator ''<p width=5>a b=cd</p>'' =
     [\<lparr>issue_Type = IssueUnquotedAttr, issue_Line = 0, issue_Column = 0,
       issue_Message = ''Attribute value must be quoted'', issue_Original = '' b=cd</p'',
       issue_Fixed = ''b='' @ [CHR 0x22] @ ''cd</p'' @ [CHR 0x22]\<rparr>]"
  by (simp add: scan_defs)

section \<open>Strict mode and the scanner\<close>

lemma first_SomeD: "first xs = Some d \<Longrightarrow> 0 < length xs \<and> xs ! 0 = d"
  by (cases xs) simp_all

text \<open>
  The scanner's first Defect is the one built from the first match of the first of its
  four patterns that matches the input, in the order uppercase tag, uppercase attribute,
  unquoted attribute, unclosed void element. Whenever there is one, \<open>Convert\<close> with
  \<open>StrictMode\<close> returns no Result and the error of kind validation-failed whose message
  is that Defect's message, \<open>": "\<close> and its original text, and it records nothing in the
  metrics.
\<close>

lemma strict_mode_first_defect:
  "first (Validate lower NewPreValidator input) = firstDefect lower NewPreValidator input
   \<and> (firstDefect lower NewPreValidator input = None) =
       (FindAllString (uppercaseTagRe NewPreValidator) input = []
        \<and> FindAllString (uppercaseAttrRe NewPreValidator) input = []
        \<and> FindAllStringSubmatch (unquotedAttrRe NewPreValidator) input = []
        \<and> FindAllStringSubmatch (unclosedVoidRe NewPreValidator) input = [])
   \<and> (StrictMode opts \<and> firstDefect lower NewPreValidator input = Some d \<longrightarrow>
        Convert lower parse (NewWithMetrics ms) input opts
          = (Returns (None, Some (Error ErrValidationFailed
                (issue_Message d @ '': '' @ issue_Original d) None)), ms))"
proof -
  have conv: "Convert lower parse (NewWithMetrics ms) input opts
          = (Returns (None, Some (Error ErrValidationFailed
                (issue_Message d @ '': '' @ issue_Original d) None)), ms)"
    if "StrictMode opts" "firstDefect lower NewPreValidator input = Some d"
  proof -
    have "first (Validate lower NewPreValidator input) = Some d"
      using that(2) by (simp only: first_Validate)
    from first_SomeD [OF this]
    have "0 < length (Validate lower NewPreValidator input)"
        "Validate lower NewPreValidator input ! 0 = d"
      by (rule conjunct1, rule conjunct2)
    then show ?thesis
      using that(1) by (simp add: Convert_def NewWithMetrics_def NewError_def Let_def)
  qed
  have strict: "StrictMode opts \<and> firstDefect lower NewPreValidator input = Some d \<longrightarrow>
        Convert lower parse (NewWithMetrics ms) input opts
          = (Returns (None, Some (Error ErrValidationFailed
                (issue_Message d @ '': '' @ issue_Original d) None)), ms)"
    using conv by simp
  have none: "(firstDefect lower NewPreValidator input = None) =
       (FindAllString (uppercaseTagRe NewPreValidator) input = []
        \<and> FindAllString (uppercaseAttrRe NewPreValidator) input = []
        \<and> FindAllStringSubmatch (unquotedAttrRe NewPreValidator) input = []
        \<and> FindAllStringSubmatch (unclosedVoidRe NewPreValidator) input = [])"
    by (simp add: firstDefect_def split: list.splits)
  from first_Validate [of lower input] none strict show ?thesis
    by (intro conjI)
qed

lemma strict_mode_first_defect_example:
  "Convert ToLowerASCII (\<lambda>_. (Some (page []), None))
        (NewWithMetrics (Some (Default NewMetrics)))
        ''<br CLASS=x><B>'' (defaultOptions\<lparr>StrictMode := True\<rparr>)
       = (Returns (None, Some (Error ErrValidationFailed ''Tag must be lowercase: B'' None)),
          Some (Default NewMetrics))"
  using strict_mode_first_defect [of ToLowerASCII "''<br CLASS=x><B>''"
      "defaultOptions\<lparr>StrictMode := True\<rparr>"
      "\<lparr>issue_Type = IssueUppercaseTag, issue_Line = 0, issue_Column = 0,
        issue_Message = ''Tag must be lowercase'', issue_Original = ''B'',
        issue_Fixed = ''b''\<rparr>"
      "\<lambda>_. (Some (page []), None)" "Some (Default NewMetrics)"]
  by (simp add: firstDefect_example defaultOptions_def)

lemma occurs_append: "suf \<noteq> [] \<Longrightarrow> P suf \<Longrightarrow> occurs P (pre @ suf)"
  by (induction pre) (cases suf; simp)+

lemma uppercaseTagRe_unfold:
  "uppercaseTagRe NewPreValidator =
     Seq (One (Chr CHR ''<'')) (Seq (Opt (One (Chr CHR ''/''))) (Seq (One (In upper))
       (Seq (Star (In (upper @ digit))) Eps)))"
  by (simp add: NewPreValidator_def seq_def)

lemma uppercaseTag_outcomes:
  assumes "cls_match (In upper) c"
  shows "outcomes (uppercaseTagRe NewPreValidator) (''<'' # c # post) g \<noteq> []"
proof -
  let ?end = "dropWhile (cls_match (In (upper @ digit))) post"
  have o1: "(c # post, g) \<in> set (outcomes (One (Chr CHR ''<'')) (''<'' # c # post) g)"
    by simp
  have o2: "(c # post, g) \<in> set (outcomes (Opt (One (Chr CHR ''/''))) (c # post) g)"
    by simp
  have o3: "(post, g) \<in> set (outcomes (One (In upper)) (c # post) g)"
    using assms by (simp del: cls_match.simps)
  have o4: "(?end, g) \<in> set (outcomes (Star (In (upper @ digit))) post g)"
    by (simp add: greedy_max)
  have o5: "(?end, g) \<in> set (outcomes Eps ?end g)" by simp
  have "(?end, g) \<in> set (outcomes (uppercaseTagRe NewPreValidator) (''<'' # c # post) g)"
    unfolding uppercaseTagRe_unfold
    by (rule outcomes_SeqI [OF o1], rule outcomes_SeqI [OF o2], rule outcomes_SeqI [OF o3],
        rule outcomes_SeqI [OF o4], rule o5)
  then show ?thesis by (metis empty_iff empty_set)
qed

lemma uppercaseTag_found:
  assumes "runes input = pre @ ''<'' # c # post" "cls_match (In upper) c"
  shows "FindAllString (uppercaseTagRe NewPreValidator) input \<noteq> []"
proof -
  have "match_here (uppercaseTagRe NewPreValidator) (''<'' # c # post) \<noteq> None"
    using uppercaseTag_outcomes [OF assms(2)] by (simp add: match_here_None_iff)
  then have "occurs (\<lambda>s. match_here (uppercaseTagRe NewPreValidator) s \<noteq> None)
      (pre @ ''<'' # c # post)"
    by (intro occurs_append) simp_all
  then show ?thesis
    using assms(1) by (simp add: FindAllString_def find_all_Nil_iff)
qed

text \<open>
  An input in which \<open><\<close> is followed by an uppercase letter is rejected in strict mode,
  with the Defect of an uppercase tag.
\<close>

lemma strict_mode_rejects_uppercase_tag:
  assumes "runes input = pre @ ''<'' # c # post" "cls_match (In upper) c" "StrictMode opts"
  shows "\<exists>d. issue_Type d = IssueUppercaseTag
           \<and> first (Validate lower NewPreValidator input) = Some d
           \<and> Convert lower parse (NewWithMetrics ms) input opts
               = (Returns (None, Some (Error ErrValidationFailed
                    (''Tag must be lowercase: '' @ issue_Original d) None)), ms)"
proof -
  obtain m rest where m: "FindAllString (uppercaseTagRe NewPreValidator) input = m # rest"
    using uppercaseTag_found [OF assms(1,2)]
    by (cases "FindAllString (uppercaseTagRe NewPreValidator) input") auto
  let ?d = "uppercaseTagDefect lower m"
  have fd: "firstDefect lower NewPreValidator input = Some ?d"
    by (simp add: firstDefect_def m)
  have "Convert lower parse (NewWithMetrics ms) input opts
          = (Returns (None, Some (Error ErrValidationFailed
                (issue_Message ?d @ '': '' @ issue_Original ?d) None)), ms)"
    using strict_mode_first_defect [of lower input opts ?d parse ms] assms(3) fd by simp
  moreover have "issue_Type ?d = IssueUppercaseTag" "issue_Message ?d = ''Tag must be lowercase''"
    by (simp_all add: uppercaseTagDefect_def)
  moreover have "first (Validate lower NewPreValidator input) = Some ?d"
    using fd by (simp only: first_Validate)
  ultimately show ?thesis by auto
qed

text \<open>
  C1. The input \<open><p width=5>x</p>\<close> contains an unquoted attribute value, and \<open>Convert\<close>
  with \<open>StrictMode\<close> returns a Result for it and no error (the tree is the one the HTML
  parser builds for this input): the scanner's pattern for unquoted values asks for a
  value of two characters or more, so that the scan finds no Defect here.
\<close>

theorem strict_mode_accepts_unquoted_value:
  "containsUnquotedAttr ''<p width=5>x</p>''
   \<and> Validate ToLowerASCII NewPreValidator ''<p width=5>x</p>'' = []
   \<and> fst (Convert ToLowerASCII
          (\<lambda>_. (Some (page [Node ElementNode ''p'' [attr ''width'' ''5'']
                          [Node TextNode ''x'' [] []]]), None))
          New ''<p width=5>x</p>'' (defaultOptions\<lparr>StrictMode := True\<rparr>))
     = Returns (Some \<lparr>Success = True,
              Output = ''<html><head></head><body><p width='' @ [CHR 0x22] @ ''5''
                       @ [CHR 0x22] @ ''>x</p></body></html>'',
              OriginalSize = 16, FinalSize = 57, Changes = [], Errors = [],
              Warnings = []\<rparr>, None)"
proof -
  have a: "containsUnquotedAttr ''<p width=5>x</p>''"
    by (simp add: containsUnquotedAttr_def spec_unquotedAttrRe_def scan_defs)
  have b: "fst (Convert ToLowerASCII
          (\<lambda>_. (Some (page [Node ElementNode ''p'' [attr ''width'' ''5'']
                          [Node TextNode ''x'' [] []]]), None))
          New ''<p width=5>x</p>'' (defaultOptions\<lparr>StrictMode := True\<rparr>))
     = Returns (Some \<lparr>Success = True,
              Output = ''<html><head></head><body><p width='' @ [CHR 0x22] @ ''5''
                       @ [CHR 0x22] @ ''>x</p></body></html>'',
              OriginalSize = 16, FinalSize = 57, Changes = [], Errors = [],
              Warnings = []\<rparr>, None)"
    by (simp add: convert_defs Validate_p_width lower_tags)
  from a Validate_p_width b show ?thesis by (intro conjI)
qed

section \<open>The unquoted-attribute pattern\<close>

lemma rune_size_pos: "s \<noteq> [] \<Longrightarrow> 0 < rune_size s"
  by (cases s) (simp_all add: Let_def)

lemma runes_nonempty: "r \<in> set (runes s) \<Longrightarrow> r \<noteq> []"
proof (induction s rule: runes.induct)
  case (1 s)
  show ?case
  proof (cases "s = []")
    case True
    then show ?thesis using "1.prems" by (simp add: runes.simps)
  next
    case False
    then have "r = take (rune_size s) s \<or> r \<in> set (runes (drop (rune_size s) s))"
      using "1.prems" by (subst (asm) runes.simps) auto
    then show ?thesis
      using "1.IH" False rune_size_pos [OF False] by auto
  qed
qed

lemma unquotedAttr_submatch_value:
  assumes "m \<in> set (FindAllStringSubmatch (unquotedAttrRe NewPreValidator) input)"
  shows "2 \<le> length (m ! 2)"
proof -
  from assms obtain w gs where
      wg: "(w, gs) \<in> set (find_all (unquotedAttrRe NewPreValidator) (runes input))"
      and m: "m = concat w # map concat gs"
    unfolding FindAllStringSubmatch_def by auto
  from find_all_setD [OF wg] obtain pre suf where ps: "runes input = pre @ suf"
      "match_here (unquotedAttrRe NewPreValidator) suf = Some (w, gs)"
    by blast
  from unquotedAttr_match [OF ps(2)] obtain p2 q n mid post where
      s: "suf = p2 @ ''='' # q # n # mid @ post" "gs ! 1 = q # n # mid" "length gs = 2"
    by blast
  have "q \<in> set (runes input)" "n \<in> set (runes input)"
    using ps(1) s(1) by simp_all
  then have "q \<noteq> []" "n \<noteq> []"
    using runes_nonempty by blast+
  then have "2 \<le> length (concat (gs ! 1))"
    using s(2) by (cases q; cases n) simp_all
  moreover have "m ! 2 = concat (gs ! 1)"
    using m s(3) by (simp add: numeral_2_eq_2)
  ultimately show ?thesis by simp
qed

lemma Convert_no_defect:
  assumes "Validate lower NewPreValidator input = []" "parse input = (Some doc, None)"
    "AutoFix opts \<or> validateNode lower doc = None"
  shows "Convert lower parse (NewWithMetrics ms) input opts =
     (Returns (Some \<lparr>Success = True, Output = rendered doc,
              OriginalSize = of_nat (length input),
              FinalSize = of_nat (length (rendered doc)),
              Changes = [], Errors = [], Warnings = []\<rparr>, None), ms)"
  using assms
  by (cases ms)
     (auto simp: Convert_def NewWithMetrics_def Let_def renderXHTML_append newResult_def
        notifyChanges_def split: prod.splits)

lemma Validate_silent:
  assumes "FindAllString (uppercaseTagRe NewPreValidator) input = []"
    "FindAllString (uppercaseAttrRe NewPreValidator) input = []"
    "FindAllStringSubmatch (unquotedAttrRe NewPreValidator) input = []"
    "FindAllStringSubmatch (unclosedVoidRe NewPreValidator) input = []"
  shows "Validate lower NewPreValidator input = []"
  using assms by (simp add: Validate_def)

text \<open>
  C10, as the code has it. A match of the unquoted-attribute pattern has a value (its
  second group) of at least two characters. The pattern matches somewhere in an input
  exactly when, from some position on, the text reads: white space, a name of word
  characters, \<open>=\<close>, a character that is not a quote, and one more character that is
  neither white space nor \<open>>\<close>; whether that position is inside a tag does not matter. So
  an attribute \<open>name=c\<close> with a value of one character, followed by white space, by \<open>>\<close>
  or by the end of the text, is not matched where it stands. When the pattern matches
  nowhere and the other three patterns do not match either, the scan returns no Defect,
  and \<open>Convert\<close>, in strict mode too, goes on to parse: if the parser hands over a tree
  and no error and the tree validator finds nothing (or auto-fix is on, and the validator
  does not run), it returns a successful Result with no Change.
\<close>

theorem one_char_unquoted_value:
  "(m \<in> set (FindAllStringSubmatch (unquotedAttrRe NewPreValidator) input) \<longrightarrow>
      2 \<le> length (m ! 2))
   \<and> ((w, gs) \<in> set (find_all (unquotedAttrRe NewPreValidator) (runes input)) \<longrightarrow>
      2 \<le> length (gs ! 1))
   \<and> (FindAllStringSubmatch (unquotedAttrRe NewPreValidator) input = [])
       = (\<not> occurs longValueAt (runes input))
   \<and> (ws \<noteq> [] \<and> list_all (cls_match (In space)) ws
       \<and> name \<noteq> [] \<and> list_all (cls_match (In word)) name
       \<and> (rest = [] \<or> cls_match (In (space @ ''>'')) (hd rest))
      \<longrightarrow> \<not> longValueAt (ws @ name @ ''='' # q # rest))
   \<and> (\<not> occurs longValueAt (runes input)
       \<and> FindAllString (uppercaseTagRe NewPreValidator) input = []
       \<and> FindAllString (uppercaseAttrRe NewPreValidator) input = []
       \<and> FindAllStringSubmatch (unclosedVoidRe NewPreValidator) input = []
      \<longrightarrow> Validate lower NewPreValidator input = []
        \<and> (parse input = (Some doc, None)
             \<and> (AutoFix opts \<or> validateNode lower doc = None)
           \<longrightarrow> Convert lower parse (NewWithMetrics ms) input opts =
                 (Returns (Some \<lparr>Success = True, Output = rendered doc,
                          OriginalSize = of_nat (length input),
                          FinalSize = of_nat (length (rendered doc)),
                          Changes = [], Errors = [], Warnings = []\<rparr>, None), ms)))"
proof -
  have c1: "m \<in> set (FindAllStringSubmatch (unquotedAttrRe NewPreValidator) input) \<longrightarrow>
      2 \<le> length (m ! 2)"
    using unquotedAttr_submatch_value [of m input] by simp
  have c2: "(w, gs) \<in> set (find_all (unquotedAttrRe NewPreValidator) (runes input)) \<longrightarrow>
      2 \<le> length (gs ! 1)"
    using unquotedAttr_value_length [of w gs "runes input"] by simp
  have c3: "(FindAllStringSubmatch (unquotedAttrRe NewPreValidator) input = [])
       = (\<not> occurs longValueAt (runes input))"
    by (rule unquotedAttr_silent_iff)
  have c4: "ws \<noteq> [] \<and> list_all (cls_match (In space)) ws
       \<and> name \<noteq> [] \<and> list_all (cls_match (In word)) name
       \<and> (rest = [] \<or> cls_match (In (space @ ''>'')) (hd rest))
      \<longrightarrow> \<not> longValueAt (ws @ name @ ''='' # q # rest)"
  proof (intro impI, elim conjE)
    assume a: "ws \<noteq> []" "list_all (cls_match (In space)) ws"
      "name \<noteq> []" "list_all (cls_match (In word)) name"
      and r: "rest = [] \<or> cls_match (In (space @ ''>'')) (hd rest)"
    show "\<not> longValueAt (ws @ name @ ''='' # q # rest)"
      unfolding longValueAt_shape [OF a] using r by (cases rest) simp_all
  qed
  have c5: "\<not> occurs longValueAt (runes input)
       \<and> FindAllString (uppercaseTagRe NewPreValidator) input = []
       \<and> FindAllString (uppercaseAttrRe NewPreValidator) input = []
       \<and> FindAllStringSubmatch (unclosedVoidRe NewPreValidator) input = []
      \<longrightarrow> Validate lower NewPreValidator input = []
        \<and> (parse input = (Some doc, None)
             \<and> (AutoFix opts \<or> validateNode lower doc = None)
           \<longrightarrow> Convert lower parse (NewWithMetrics ms) input opts =
                 (Returns (Some \<lparr>Success = True, Output = rendered doc,
                          OriginalSize = of_nat (length input),
                          FinalSize = of_nat (length (rendered doc)),
                          Changes = [], Errors = [], Warnings = []\<rparr>, None), ms))"
  proof (intro impI, elim conjE)
    assume a: "\<not> occurs longValueAt (runes input)"
      "FindAllString (uppercaseTagRe NewPreValidator) input = []"
      "FindAllString (uppercaseAttrRe NewPreValidator) input = []"
      "FindAllStringSubmatch (unclosedVoidRe NewPreValidator) input = []"
    have u: "FindAllStringSubmatch (unquotedAttrRe NewPreValidator) input = []"
      using a(1) by (simp add: unquotedAttr_silent_iff)
    have v: "Validate lower NewPreValidator input = []"
      using a(2,3) u a(4) by (rule Validate_silent)
    show "Validate lower NewPreValidator input = []
        \<and> (parse input = (Some doc, None)
             \<and> (AutoFix opts \<or> validateNode lower doc = None)
           \<longrightarrow> Convert lower parse (NewWithMetrics ms) input opts =
                 (Returns (Some \<lparr>Success = True, Output = rendered doc,
                          OriginalSize = of_nat (length input),
                          FinalSize = of_nat (length (rendered doc)),
                          Changes = [], Errors = [], Warnings = []\<rparr>, None), ms))"
      using v Convert_no_defect [OF v, of parse doc opts ms] by simp
  qed
  from c1 c2 c3 c4 c5 show ?thesis by (intro conjI)
qed

theorem one_char_unquoted_value_witness:
  "set (FindAllStringSubmatch (unquotedAttrRe NewPreValidator) ''<img src=pic.jpg>'')
     = {['' src=pic.jpg'', ''src'', ''pic.jpg'']}
   \<and> 2 \<le> length ''pic.jpg''
   \<and> \<not> longValueAt (runes '' width=5>1+1=10</p>'')
   \<and> \<not> occurs longValueAt (runes ''<p width=5>1+1=10</p>'')
   \<and> FindAllString (uppercaseTagRe NewPreValidator) ''<p width=5>1+1=10</p>'' = []
   \<and> FindAllString (uppercaseAttrRe NewPreValidator) ''<p width=5>1+1=10</p>'' = []
   \<and> FindAllStringSubmatch (unquotedAttrRe NewPreValidator) ''<p width=5>1+1=10</p>'' = []
   \<and> FindAllStringSubmatch (unclosedVoidRe NewPreValidator) ''<p width=5>1+1=10</p>'' = []
   \<and> Validate ToLowerASCII NewPreValidator ''<p width=5>1+1=10</p>'' = []
   \<and> fst (Convert ToLowerASCII
          (\<lambda>_. (Some (page [Node ElementNode ''p'' [attr ''width'' ''5'']
                          [Node TextNode ''1+1=10'' [] []]]), None))
          (NewWithMetrics None) ''<p width=5>1+1=10</p>''
          (defaultOptions\<lparr>StrictMode := True\<rparr>))
       = Returns (Some \<lparr>Success = True,
              Output = ''<html><head></head><body><p width='' @ [CHR 0x22] @ ''5''
                       @ [CHR 0x22] @ ''>1+1=10</p></body></html>'',
              OriginalSize = 21, FinalSize = 62, Changes = [], Errors = [],
              Warnings = []\<rparr>, None)"
  using one_char_unquoted_value [of "['' src=pic.jpg'', ''src'', ''pic.jpg'']"
      "''<img src=pic.jpg>''" "[]" "[]" "['' '']" "[''w'', ''i'', ''d'', ''t'', ''h'']"
      "runes ''>1+1=10</p>''" "''5''"]
    one_char_unquoted_value [of _ "''<p width=5>1+1=10</p>''" _ _ _ _ _ _ ToLowerASCII
      "\<lambda>_. (Some (page [Node ElementNode ''p'' [attr ''width'' ''5'']
                          [Node TextNode ''1+1=10'' [] []]]), None)"
      "page [Node ElementNode ''p'' [attr ''width'' ''5''] [Node TextNode ''1+1=10'' [] []]]"
      "defaultOptions\<lparr>StrictMode := True\<rparr>" None]
  by (simp add: scan_silent page_def elem_def attr_def validateElement_def isVoidElement_def
        lower_tags rendered_Document rendered_Element rendered_Text renderAttr_def
        EscapeString_def defaultOptions_def)

text \<open>
  C10, as the specification states it, fails. In \<open><p width=5>a b=cd</p>\<close> the only
  attribute is \<open>width=5\<close>, with its unquoted value of one character (the tree is the one
  the HTML parser builds, and the tree validator finds nothing in it), but the pattern
  matches in the text of the paragraph: the scan returns a Defect, \<open>Convert\<close> with
  \<open>StrictMode\<close> rejects the input, and with \<open>AutoFix\<close> its Result lists a Change.
\<close>

theorem scan_matches_outside_tags:
  "Validate ToLowerASCII NewPreValidator ''<p width=5>a b=cd</p>'' =
     [\<lparr>issue_Type = IssueUnquotedAttr, issue_Line = 0, issue_Column = 0,
       issue_Message = ''Attribute value must be quoted'', issue_Original = '' b=cd</p'',
       issue_Fixed = ''b='' @ [CHR 0x22] @ ''cd</p'' @ [CHR 0x22]\<rparr>]
   \<and> validateNode ToLowerASCII
        (page [Node ElementNode ''p'' [attr ''width'' ''5''] [Node TextNode ''a b=cd'' [] []]])
       = None
   \<and> fst (Convert ToLowerASCII
          (\<lambda>_. (Some (page [Node ElementNode ''p'' [attr ''width'' ''5'']
                          [Node TextNode ''a b=cd'' [] []]]), None))
          New ''<p width=5>a b=cd</p>'' (defaultOptions\<lparr>StrictMode := True\<rparr>))
       = Returns (None, Some (Error ErrValidationFailed
           ''Attribute value must be quoted:  b=cd</p'' None))
   \<and> map_option Changes (returned_Result (fst (Convert ToLowerASCII
          (\<lambda>_. (Some (page [Node ElementNode ''p'' [attr ''width'' ''5'']
                          [Node TextNode ''a b=cd'' [] []]]), None))
          New ''<p width=5>a b=cd</p>'' (defaultOptions\<lparr>AutoFix := True\<rparr>))))
       = Some [\<lparr>change_Type = ChangeUnquotedAttr, change_Location = [],
                 change_Message = ''Attribute value must be quoted'',
                 change_Original = '' b=cd</p'',
                 change_Fixed = ''b='' @ [CHR 0x22] @ ''cd</p'' @ [CHR 0x22]\<rparr>]"
  by (simp add: convert_defs Validate_p_text lower_tags)

section \<open>Convert and ConvertWithContext\<close>

text \<open>
  What a call that returns hands over: a Result and no error, with the \<open>Success\<close> flag true
  exactly when the list of recovered errors is empty, or no Result and a structured error.
  A call panics only on a nil tree.
\<close>

lemma returns_result_or_error:
  "(case fst (Convert lower parse c input opts) of
      Panics \<Rightarrow> fst (parse input) = None
    | Returns (Some r, None) \<Rightarrow> Success r = (Errors r = [])
    | Returns (None, Some e) \<Rightarrow> structured e
    | _ \<Rightarrow> False)
   \<and> (case fst (ConvertWithContext lower parse c ctx elapsed input opts) of
      Panics \<Rightarrow> fst (parse input) = None
    | Returns (Some r, None) \<Rightarrow> Success r = (Errors r = [])
    | Returns (None, Some e) \<Rightarrow> structured e
    | _ \<Rightarrow> False)"
  by (auto simp: Convert_def ConvertWithContext_def Let_def renderXHTML_append structured_def
        NewError_def fixNodeWithContext_def validateNodeWithContext_def
        split: prod.splits option.splits if_splits sum.splits run.splits)

text \<open>
  The fatal conditions of strict mode, a Defect of the scan (in \<open>Convert\<close>), a parser error
  and a violation found by the tree validator, end the call with a structured error of
  their kind and no Result.
\<close>

lemma fatal_conditions_return_no_result:
  "(StrictMode opts \<and> Validate lower (preValidator c) input \<noteq> [] \<longrightarrow>
      fst (Convert lower parse c input opts)
        = Returns (None, Some (Error ErrValidationFailed
            (issue_Message (hd (Validate lower (preValidator c) input)) @ '': ''
               @ issue_Original (hd (Validate lower (preValidator c) input))) None)))
   \<and> (StrictMode opts \<and> Validate lower (preValidator c) input = []
       \<and> snd (parse input) \<noteq> None \<longrightarrow>
      fst (Convert lower parse c input opts)
        = Returns (None, Some (Error ErrParseFailed ''failed to parse HTML''
            (snd (parse input)))))
   \<and> (StrictMode opts \<and> \<not> AutoFix opts \<and> Validate lower (preValidator c) input = []
       \<and> parse input = (Some doc, None) \<and> validateNode lower doc = Some verr \<longrightarrow>
      fst (Convert lower parse c input opts)
        = Returns (None, Some (Error ErrValidationFailed ''validation failed'' (Some verr))))
   \<and> (StrictMode opts \<and> snd (parse input) \<noteq> None \<longrightarrow>
      fst (ConvertWithContext lower parse c Never elapsed input opts)
        = Returns (None, Some (Error ErrParseFailed ''failed to parse HTML''
            (snd (parse input)))))
   \<and> (StrictMode opts \<and> \<not> AutoFix opts
       \<and> parse input = (Some doc, None) \<and> validateNode lower doc = Some verr \<longrightarrow>
      fst (ConvertWithContext lower parse c Never elapsed input opts)
        = Returns (None, Some (Error ErrValidationFailed ''validation failed'' (Some verr))))"
proof -
  have hd0: "xs \<noteq> [] \<Longrightarrow> xs ! 0 = hd xs" for xs :: "ValidationIssue list"
    by (cases xs) simp_all
  show ?thesis
    by (auto simp: Convert_def ConvertWithContext_def Let_def NewError_def hd0
        validateNodeWithContext_def split: prod.splits option.splits)
qed

text \<open>
  With \<open>StrictMode\<close> off, a call for which the parser fails, and so hands over a nil tree,
  panics, unless \<open>ConvertWithContext\<close> observes its signal first.
\<close>

lemma nil_tree_panics:
  "fst (parse input) = None \<Longrightarrow> \<not> StrictMode opts \<Longrightarrow>
   fst (Convert lower parse c input opts) = Panics
   \<and> fst (ConvertWithContext lower parse c Never elapsed input opts) = Panics"
  by (auto simp: Convert_def ConvertWithContext_def Let_def fixNodeWithContext_def
        validateNodeWithContext_def split: prod.splits option.splits)

text \<open>
  C6. A caller of \<open>Convert\<close> or \<open>ConvertWithContext\<close> can be left with neither a Result nor
  an error. The HTML parser refuses markup nested deeper than 512 open elements and
  returns a nil tree with its error; with \<open>StrictMode\<close> off, both functions count the parse
  failure in the metrics, keep the error as a recovered one and go on with the nil tree,
  and the next step (\<open>validateNode\<close>, or \<open>fixNode\<close> with \<open>AutoFix\<close>) panics.
\<close>

theorem lenient_parse_error_panics:
  "Convert ToLowerASCII
      (\<lambda>_. (None, Some (ErrorString ''html: open stack of elements exceeds 512 nodes'')))
      (NewWithMetrics (Some (Default NewMetrics))) (nested 600) defaultOptions
     = (Panics, Some (RecordError (Default NewMetrics) ErrParseFailed))
   \<and> ConvertWithContext ToLowerASCII
      (\<lambda>_. (None, Some (ErrorString ''html: open stack of elements exceeds 512 nodes'')))
      (NewWithMetrics (Some (Default NewMetrics))) Never 0 (nested 600) defaultOptions
     = (Panics, Some (RecordError (Default NewMetrics) ErrParseFailed))
   \<and> ConvertWithContext ToLowerASCII
      (\<lambda>_. (None, Some (ErrorString ''html: open stack of elements exceeds 512 nodes'')))
      (NewWithMetrics (Some (Default NewMetrics))) Never 0 (nested 600)
      (defaultOptions\<lparr>AutoFix := True\<rparr>)
     = (Panics, Some (RecordError (Default NewMetrics) ErrParseFailed))"
  by (simp add: Convert_def ConvertWithContext_def Let_def NewWithMetrics_def
        defaultOptions_def notifyError_def validateNodeWithContext_def
        fixNodeWithContext_def)

text \<open>
  C2. \<open>ConvertWithContext\<close> has no scanning step: on \<open><BR>\<close> (the tree is the one the
  HTML parser builds for it) with \<open>StrictMode\<close>, \<open>Convert\<close> returns the scanner's
  validation-failed error and \<open>ConvertWithContext\<close>, its signal never triggered, returns a
  successful Result; with \<open>AutoFix\<close>, the Result of \<open>Convert\<close> lists the scanner's Change
  and the Result of \<open>ConvertWithContext\<close> lists none.
\<close>

theorem context_conversion_skips_scan:
  "fst (Convert ToLowerASCII (\<lambda>_. (Some (page [elem ''br'' []]), None)) New ''<BR>''
          (defaultOptions\<lparr>StrictMode := True\<rparr>))
     = Returns (None, Some (Error ErrValidationFailed ''Tag must be lowercase: BR'' None))
   \<and> fst (ConvertWithContext ToLowerASCII (\<lambda>_. (Some (page [elem ''br'' []]), None)) New
          Never 0 ''<BR>'' (defaultOptions\<lparr>StrictMode := True\<rparr>))
     = Returns (Some \<lparr>Success = True,
              Output = ''<html><head></head><body><br /></body></html>'',
              OriginalSize = 4, FinalSize = 45, Changes = [], Errors = [], Warnings = []\<rparr>,
        None)
   \<and> map_option Changes (returned_Result (fst (Convert ToLowerASCII
          (\<lambda>_. (Some (page [elem ''br'' []]), None))
          New ''<BR>'' (defaultOptions\<lparr>AutoFix := True\<rparr>))))
     = Some [\<lparr>change_Type = ChangeUppercaseTag, change_Location = [],
               change_Message = ''Tag must be lowercase'', change_Original = ''BR'',
               change_Fixed = ''br''\<rparr>]
   \<and> map_option Changes (returned_Result (fst (ConvertWithContext ToLowerASCII
          (\<lambda>_. (Some (page [elem ''br'' []]), None)) New Never 0 ''<BR>''
          (defaultOptions\<lparr>AutoFix := True\<rparr>))))
     = Some []"
  by (simp add: convert_defs Validate_BR lower_tags)

text \<open>
  C3. \<open>Convert\<close> never records a successful conversion: after it has returned a Result
  for \<open><p>x</p>\<close>, a collector that started from \<open>NewMetrics\<close> is unchanged, with no
  conversion counted at all; and after the strict-mode abort on \<open><BR>\<close> the collector is
  unchanged too, with no failure counted.
\<close>

theorem convert_records_no_conversion:
  "fst (Convert ToLowerASCII
          (\<lambda>_. (Some (page [elem ''p'' [Node TextNode ''x'' [] []]]), None))
          (NewWithMetrics (Some (Default NewMetrics))) ''<p>x</p>'' defaultOptions)
     = Returns (Some \<lparr>Success = True,
              Output = ''<html><head></head><body><p>x</p></body></html>'',
              OriginalSize = 8, FinalSize = 47, Changes = [], Errors = [], Warnings = []\<rparr>,
        None)
   \<and> snd (Convert ToLowerASCII
          (\<lambda>_. (Some (page [elem ''p'' [Node TextNode ''x'' [] []]]), None))
          (NewWithMetrics (Some (Default NewMetrics))) ''<p>x</p>'' defaultOptions)
     = Some (Default NewMetrics)
   \<and> TotalConversions (GetStats (Default NewMetrics)) = 0
   \<and> fst (Convert ToLowerASCII (\<lambda>_. (Some (page [elem ''br'' []]), None))
          (NewWithMetrics (Some (Default NewMetrics))) ''<BR>''
          (defaultOptions\<lparr>StrictMode := True\<rparr>))
     = Returns (None, Some (Error ErrValidationFailed ''Tag must be lowercase: BR'' None))
   \<and> snd (Convert ToLowerASCII (\<lambda>_. (Some (page [elem ''br'' []]), None))
          (NewWithMetrics (Some (Default NewMetrics))) ''<BR>''
          (defaultOptions\<lparr>StrictMode := True\<rparr>))
     = Some (Default NewMetrics)"
  by (simp add: convert_defs Validate_BR Validate_p_x lower_tags NewMetrics_def
        DefaultMetrics_GetStats_def)

text \<open>
  C7, as the code has it. When the signal is first observed at one of the three
  checkpoints of \<open>ConvertWithContext\<close> (before parsing; after parsing; after the
  validate-or-fix step), and the conversion has reached that checkpoint (it has not
  returned before with a strict-mode parse failure or a strict-mode validation failure,
  and for the third checkpoint the parser has handed over a tree), it returns no Result
  and a structured error of kind canceled, whichever error \<open>e\<close> the signal carries (canceled
  for an explicit trigger, deadline-exceeded for a timeout), with \<open>e\<close> as its cause, and
  records one failure of kind canceled in the metrics, after what the earlier phases
  recorded.
\<close>

theorem cancellation_at_checkpoints:
  "ConvertWithContext lower parse c (After 0 e) elapsed input opts
     = (Returns (None, Some (Error ErrContextCanceled ''context canceled'' (Some e))),
        notifyError (metrics c) ErrContextCanceled)
   \<and> (snd (parse input) = None \<or> \<not> StrictMode opts \<longrightarrow>
      ConvertWithContext lower parse c (After 1 e) elapsed input opts
        = (Returns (None, Some (Error ErrContextCanceled ''context canceled after parsing''
              (Some e))),
           notifyError (if snd (parse input) = None then metrics c
                        else notifyError (metrics c) ErrParseFailed) ErrContextCanceled))
   \<and> (fst (parse input) = Some doc
       \<and> (snd (parse input) = None \<or> \<not> StrictMode opts)
       \<and> (AutoFix opts \<or> validateNode lower doc = None \<or> \<not> StrictMode opts)
      \<longrightarrow>
      ConvertWithContext lower parse c (After 3 e) elapsed input opts
        = (Returns (None, Some (Error ErrContextCanceled ''context canceled after validation''
              (Some e))),
           notifyError
             (if \<not> AutoFix opts \<and> validateNode lower doc \<noteq> None
              then notifyError (if snd (parse input) = None then metrics c
                                else notifyError (metrics c) ErrParseFailed)
                     ErrValidationFailed
              else (if snd (parse input) = None then metrics c
                    else notifyError (metrics c) ErrParseFailed))
             ErrContextCanceled))"
  by (auto simp: ConvertWithContext_def Let_def NewError_def fixNodeWithContext_def
        validateNodeWithContext_def eval_nat_numeral
        split: prod.splits option.splits sum.splits run.splits)

theorem cancellation_at_checkpoints_witness:
  "ConvertWithContext ToLowerASCII
      (\<lambda>_. (Some (page [elem ''p'' [Node TextNode ''x'' [] []]]), None))
      (NewWithMetrics (Some (Default NewMetrics))) (After 1 Canceled) 0 ''<p>x</p>''
      defaultOptions
     = (Returns (None, Some (Error ErrContextCanceled ''context canceled after parsing''
           (Some Canceled))),
        Some (RecordError (Default NewMetrics) ErrContextCanceled))
   \<and> ConvertWithContext ToLowerASCII
      (\<lambda>_. (Some (page [elem ''p'' [Node TextNode ''x'' [] []]]), None))
      (NewWithMetrics (Some (Default NewMetrics))) (After 3 DeadlineExceeded) 0 ''<p>x</p>''
      defaultOptions
     = (Returns (None, Some (Error ErrContextCanceled ''context canceled after validation''
           (Some DeadlineExceeded))),
        Some (RecordError (Default NewMetrics) ErrContextCanceled))
   \<and> FailedConversions (GetStats (RecordError (Default NewMetrics) ErrContextCanceled)) = 1
   \<and> ErrorsByType (GetStats (RecordError (Default NewMetrics) ErrContextCanceled))
        ErrContextCanceled = Some 1"
  using cancellation_at_checkpoints [of ToLowerASCII
      "\<lambda>_. (Some (page [elem ''p'' [Node TextNode ''x'' [] []]]), None)"
      "NewWithMetrics (Some (Default NewMetrics))" Canceled 0 "''<p>x</p>''" defaultOptions
      "page [elem ''p'' [Node TextNode ''x'' [] []]]"]
    cancellation_at_checkpoints [of ToLowerASCII
      "\<lambda>_. (Some (page [elem ''p'' [Node TextNode ''x'' [] []]]), None)"
      "NewWithMetrics (Some (Default NewMetrics))" DeadlineExceeded 0 "''<p>x</p>''"
      defaultOptions "page [elem ''p'' [Node TextNode ''x'' [] []]]"]
  by (simp add: NewWithMetrics_def notifyError_def defaultOptions_def page_def elem_def
        validateElement_def isVoidElement_def lower_tags NewMetrics_def
        DefaultMetrics_RecordError_def DefaultMetrics_GetStats_def incr_def)

text \<open>
  C7, as the specification states it, fails. A signal that timed out before the call is
  reported with kind canceled, not with kind timeout. Besides the three checkpoints above,
  the signal is polled once more when the validate-or-fix step starts: observed there with
  auto-fix on, the failure recorded in the metrics is of kind conversion-failed, not
  canceled. And there is no checkpoint after serialization: a signal that the first four
  polls do not observe leaves the conversion to return its Result.
\<close>

theorem timeout_reported_as_canceled:
  "ConvertWithContext ToLowerASCII
      (\<lambda>_. (Some (page [elem ''p'' [Node TextNode ''x'' [] []]]), None))
      (NewWithMetrics (Some (Default NewMetrics))) (After 0 DeadlineExceeded) 0 ''<p>x</p>''
      defaultOptions
   = (Returns (None, Some (Error ErrContextCanceled ''context canceled''
         (Some DeadlineExceeded))),
      Some (RecordError (Default NewMetrics) ErrContextCanceled))
   \<and> ConvertWithContext ToLowerASCII
      (\<lambda>_. (Some (page [elem ''p'' [Node TextNode ''x'' [] []]]), None))
      (NewWithMetrics (Some (Default NewMetrics))) (After 2 Canceled) 0 ''<p>x</p>''
      (defaultOptions\<lparr>AutoFix := True\<rparr>)
   = (Returns (None, Some (Error ErrContextCanceled ''context canceled during fix''
         (Some Canceled))),
      Some (RecordError (Default NewMetrics) ErrConversionFailed))
   \<and> fst (ConvertWithContext ToLowerASCII
      (\<lambda>_. (Some (page [elem ''p'' [Node TextNode ''x'' [] []]]), None))
      (NewWithMetrics (Some (Default NewMetrics))) (After 4 Canceled) 0 ''<p>x</p>''
      defaultOptions)
   = Returns (Some \<lparr>Success = True,
            Output = ''<html><head></head><body><p>x</p></body></html>'',
            OriginalSize = 8, FinalSize = 47, Changes = [], Errors = [], Warnings = []\<rparr>,
      None)"
  by (simp add: convert_defs lower_tags eval_nat_numeral)

section \<open>Metrics: the counters\<close>

lemma counts_consistent_RecordConversion:
  "counts_consistent m \<Longrightarrow> counts_consistent (RecordConversion m d i out)"
  by (cases m) (simp_all add: counts_consistent_def DefaultMetrics_RecordConversion_def)

lemma counts_consistent_RecordError:
  "counts_consistent m \<Longrightarrow> counts_consistent (RecordError m e)"
  by (cases m) (simp_all add: counts_consistent_def DefaultMetrics_RecordError_def)

lemma counts_consistent_RecordChange:
  "counts_consistent m \<Longrightarrow> counts_consistent (RecordChange m c)"
  by (cases m) (simp_all add: counts_consistent_def DefaultMetrics_RecordChange_def)

lemma counts_consistent_Reset: "counts_consistent (Reset m)"
  by (cases m) (simp_all add: counts_consistent_def DefaultMetrics_Reset_def)

lemma counts_consistent_GetStats:
  "counts_consistent m \<Longrightarrow>
   TotalConversions (GetStats m) =
     SuccessfulConversions (GetStats m) + FailedConversions (GetStats m)"
  by (cases m) (simp_all add: counts_consistent_def DefaultMetrics_GetStats_def Let_def)

lemma run_ops_consistent:
  "counts_consistent m \<Longrightarrow> s \<in> set (run_ops m ops) \<Longrightarrow>
   TotalConversions s = SuccessfulConversions s + FailedConversions s"
proof (induction m ops rule: run_ops.induct)
  case (5 m ops)
  then show ?case by (auto simp: counts_consistent_GetStats)
qed (auto simp: counts_consistent_RecordConversion counts_consistent_RecordError
      counts_consistent_RecordChange counts_consistent_Reset)

text \<open>
  C8. Whatever record-success, record-failure, record-change, reset and stats operations
  are applied, in any order, to a collector starting from \<open>NewMetrics\<close>, every snapshot
  that a stats operation returns has total conversions = successful conversions + failed
  conversions (in \<open>int64\<close> arithmetic).
\<close>

theorem metrics_total_is_sum:
  "s \<in> set (run_ops (Default NewMetrics) ops) \<Longrightarrow>
   TotalConversions s = SuccessfulConversions s + FailedConversions s"
  by (rule run_ops_consistent [where m = "Default NewMetrics" and ops = ops])
     (simp_all add: counts_consistent_def NewMetrics_def)

theorem metrics_total_is_sum_witness:
  "hd (run_ops (Default NewMetrics)
         [OpRecordConversion 5 10 9, OpRecordError ErrParseFailed,
          OpRecordChange ChangeUppercaseTag, OpGetStats, OpReset, OpGetStats])
     \<in> set (run_ops (Default NewMetrics)
         [OpRecordConversion 5 10 9, OpRecordError ErrParseFailed,
          OpRecordChange ChangeUppercaseTag, OpGetStats, OpReset, OpGetStats])
   \<and> TotalConversions (hd (run_ops (Default NewMetrics)
         [OpRecordConversion 5 10 9, OpRecordError ErrParseFailed,
          OpRecordChange ChangeUppercaseTag, OpGetStats, OpReset, OpGetStats])) = 2
   \<and> SuccessfulConversions (hd (run_ops (Default NewMetrics)
         [OpRecordConversion 5 10 9, OpRecordError ErrParseFailed,
          OpRecordChange ChangeUppercaseTag, OpGetStats, OpReset, OpGetStats])) = 1
   \<and> FailedConversions (hd (run_ops (Default NewMetrics)
         [OpRecordConversion 5 10 9, OpRecordError ErrParseFailed,
          OpRecordChange ChangeUppercaseTag, OpGetStats, OpReset, OpGetStats])) = 1"
  using metrics_total_is_sum [of "hd (run_ops (Default NewMetrics)
         [OpRecordConversion 5 10 9, OpRecordError ErrParseFailed,
          OpRecordChange ChangeUppercaseTag, OpGetStats, OpReset, OpGetStats])"
         "[OpRecordConversion 5 10 9, OpRecordError ErrParseFailed,
          OpRecordChange ChangeUppercaseTag, OpGetStats, OpReset, OpGetStats]"]
  by (simp add: NewMetrics_def DefaultMetrics_RecordConversion_def
        DefaultMetrics_RecordError_def DefaultMetrics_RecordChange_def
        DefaultMetrics_GetStats_def DefaultMetrics_Reset_def Let_def)

end
